theory Spec2Isabelle
  imports Complex_Main
begin

section \<open>Tensors\<close>

text \<open>
  A \<open>FloatTensor\<close> of rank 2 (a batch of \<open>N\<close> embeddings of dimension \<open>D\<close>) is a list
  of rows. In this first view its entries are real numbers and the arithmetic is exact;
  it gives the shape of the results and what they are made of. Rounding, overflow and
  NaN are the subject of the section on floating-point arithmetic, which evaluates the
  four distance kernels in the format of the batch. In the metric of recall at k the
  value NaN appears only where an operation has no real result (the mean of no values,
  \<open>0 / 0\<close>), see \<open>tf_float\<close> below.
\<close>

type_synonym FloatTensor = "real list list"

type_synonym BoolTensor = "bool list list"

text \<open>\<open>1e-18\<close>, the literal of \<open>EuclideanDistance.call\<close>.\<close>

abbreviation lit_1e_18 :: real where
  "lit_1e_18 \<equiv> 1 / 10 ^ 18"

text \<open>The inner product of two rows: one entry of \<open>tf.linalg.matmul(a, b, transpose_b=True)\<close>.\<close>

definition dot :: "real list \<Rightarrow> real list \<Rightarrow> real" where
  "dot x y = sum_list (map2 (*) x y)"

definition matmul_transpose_b :: "FloatTensor \<Rightarrow> FloatTensor \<Rightarrow> FloatTensor" where
  "matmul_transpose_b a b = map (\<lambda>x. map (\<lambda>y. dot x y) b) a"

text \<open>\<open>tf.reduce_sum(t, axis=1, keepdims=True)\<close>: one column, the sums of the rows.\<close>

definition reduce_sum_axis1_keepdims :: "FloatTensor \<Rightarrow> FloatTensor" where
  "reduce_sum_axis1_keepdims t = map (\<lambda>row. [sum_list row]) t"

text \<open>Elementwise operations.\<close>

definition tf_square :: "FloatTensor \<Rightarrow> FloatTensor" where
  "tf_square t = map (map (\<lambda>v. v * v)) t"

definition tf_scale :: "real \<Rightarrow> FloatTensor \<Rightarrow> FloatTensor" where
  "tf_scale c t = map (map (\<lambda>v. c * v)) t"

definition tf_rsub :: "real \<Rightarrow> FloatTensor \<Rightarrow> FloatTensor" where
  "tf_rsub c t = map (map (\<lambda>v. c - v)) t"

definition tf_maximum :: "FloatTensor \<Rightarrow> real \<Rightarrow> FloatTensor" where
  "tf_maximum t c = map (map (\<lambda>v. max v c)) t"

definition tf_greater_equal :: "FloatTensor \<Rightarrow> real \<Rightarrow> BoolTensor" where
  "tf_greater_equal t c = map (map (\<lambda>v. c \<le> v)) t"

definition tf_sqrt :: "FloatTensor \<Rightarrow> FloatTensor" where
  "tf_sqrt t = map (map sqrt) t"

definition tf_cast_float :: "BoolTensor \<Rightarrow> FloatTensor" where
  "tf_cast_float t = map (map (\<lambda>b. if b then 1 else 0)) t"

definition tf_multiply :: "FloatTensor \<Rightarrow> FloatTensor \<Rightarrow> FloatTensor" where
  "tf_multiply s t = map2 (map2 (*)) s t"

text \<open>
  \<open>tf.transpose\<close> of a rank-2 tensor. A list of rows does not record the width of a
  tensor with no rows; the transpose of such a tensor is only ever added to a tensor
  with no rows.
\<close>

definition tf_transpose :: "FloatTensor \<Rightarrow> FloatTensor" where
  "tf_transpose t =
     (case t of [] \<Rightarrow> [] | r # _ \<Rightarrow> map (\<lambda>j. map (\<lambda>row. row ! j) t) [0..<length r])"

text \<open>
  Broadcasting, for the two shapes that occur: a column \<open>N \<times> 1\<close> minus a matrix
  \<open>N \<times> N\<close>, and a matrix \<open>N \<times> N\<close> plus a row \<open>1 \<times> N\<close>.
\<close>

definition sub_broadcast_col :: "FloatTensor \<Rightarrow> FloatTensor \<Rightarrow> FloatTensor" where
  "sub_broadcast_col col m = map2 (\<lambda>c row. map (\<lambda>v. hd c - v) row) col m"

definition add_broadcast_row :: "FloatTensor \<Rightarrow> FloatTensor \<Rightarrow> FloatTensor" where
  "add_broadcast_row m r = map (\<lambda>row. map2 (+) row (hd r)) m"

section \<open>Distances\<close>

text \<open>
  The class \<open>Distance\<close>: a name, its aliases and the method \<open>call\<close> of the subclass.
  \<open>__call__\<close> is \<open>call\<close>.
\<close>

record Distance =
  name :: string
  aliases :: "string list"
  call :: "FloatTensor \<Rightarrow> FloatTensor"

text \<open>
  The five \<open>call\<close> methods, in exact arithmetic. What the four distance kernels return on
  a tensor of floats, where rounding, overflow and NaN decide the values, is defined in
  the section on floating-point arithmetic (\<open>EuclideanDistance_call_float\<close> and its
  siblings).
\<close>

definition InnerProductSimilarity_call :: "FloatTensor \<Rightarrow> FloatTensor" where
  "InnerProductSimilarity_call embeddings =
     (let tensor = matmul_transpose_b embeddings embeddings;
          sims = reduce_sum_axis1_keepdims tensor
      in sims)"

definition CosineDistance_call :: "FloatTensor \<Rightarrow> FloatTensor" where
  "CosineDistance_call embeddings =
     (let distances = tf_rsub 1 (matmul_transpose_b embeddings embeddings);
          distances = tf_maximum distances 0
      in distances)"

definition EuclideanDistance_call :: "FloatTensor \<Rightarrow> FloatTensor" where
  "EuclideanDistance_call embeddings =
     (let squared_norm = tf_square embeddings;
          squared_norm = reduce_sum_axis1_keepdims squared_norm;
          distances = tf_scale 2 (matmul_transpose_b embeddings embeddings);
          distances = add_broadcast_row (sub_broadcast_col squared_norm distances)
                        (tf_transpose squared_norm);
          dist_mask = tf_greater_equal distances lit_1e_18;
          distances = tf_maximum distances lit_1e_18;
          distances = tf_multiply (tf_sqrt distances) (tf_cast_float dist_mask)
      in distances)"

definition SquaredEuclideanDistance_call :: "FloatTensor \<Rightarrow> FloatTensor" where
  "SquaredEuclideanDistance_call embeddings =
     (let squared_norm = tf_square embeddings;
          squared_norm = reduce_sum_axis1_keepdims squared_norm;
          distances = tf_scale 2 (matmul_transpose_b embeddings embeddings);
          distances = add_broadcast_row (sub_broadcast_col squared_norm distances)
                        (tf_transpose squared_norm);
          distances = tf_maximum distances 0
      in distances)"

text \<open>
  \<open>ManhattanDistance.call\<close>: on a rank-2 batch the reshape to \<open>[N, -1]\<close> changes nothing;
  \<open>deltas[i][j]\<close> is the row \<open>x_rs[i] - x_rs[j]\<close>, and \<open>tf.norm(deltas, 1, axis=2)\<close> sums
  the absolute values of each such row.
\<close>

definition ManhattanDistance_call :: "FloatTensor \<Rightarrow> FloatTensor" where
  "ManhattanDistance_call embeddings =
     (let x_rs = embeddings;
          deltas = map (\<lambda>xi. map (\<lambda>xj. map2 (-) xi xj) x_rs) x_rs;
          distances = map (map (\<lambda>d. sum_list (map abs d))) deltas
      in distances)"

definition InnerProductSimilarity :: Distance where
  "InnerProductSimilarity =
     \<lparr>name = ''inner_product'', aliases = [''ip''], call = InnerProductSimilarity_call\<rparr>"

definition CosineDistance :: Distance where
  "CosineDistance = \<lparr>name = ''cosine'', aliases = [], call = CosineDistance_call\<rparr>"

definition EuclideanDistance :: Distance where
  "EuclideanDistance =
     \<lparr>name = ''euclidean'', aliases = [''l2'', ''pythagorean''], call = EuclideanDistance_call\<rparr>"

definition SquaredEuclideanDistance :: Distance where
  "SquaredEuclideanDistance =
     \<lparr>name = ''squared_euclidean'', aliases = [''sql2'', ''sqeuclidean''],
      call = SquaredEuclideanDistance_call\<rparr>"

definition ManhattanDistance :: Distance where
  "ManhattanDistance =
     \<lparr>name = ''manhattan'', aliases = [''l1'', ''taxicab''], call = ManhattanDistance_call\<rparr>"

text \<open>The list of implemented distances.\<close>

definition DISTANCES :: "Distance list" where
  "DISTANCES =
     [InnerProductSimilarity, EuclideanDistance, SquaredEuclideanDistance,
      ManhattanDistance, CosineDistance]"

text \<open>
  The expansion the Euclidean kernels compute for a pair of rows,
  \<open>||x||\<^sup>2 - 2 dot(x, y) + ||y||\<^sup>2\<close>, and the squared L2 distance of two rows.
\<close>

definition expansion :: "real list \<Rightarrow> real list \<Rightarrow> real" where
  "expansion x y = sum_list (map (\<lambda>v. v * v) x) - 2 * dot x y + sum_list (map (\<lambda>v. v * v) y)"

definition l2_squared :: "real list \<Rightarrow> real list \<Rightarrow> real" where
  "l2_squared x y = sum_list (map2 (\<lambda>a b. (a - b) * (a - b)) x y)"

text \<open>The matrix of the pairwise inner products of a batch, \<open>N \<times> N\<close>.\<close>

definition pairwise_inner_product :: "FloatTensor \<Rightarrow> FloatTensor" where
  "pairwise_inner_product embeddings =
     map (\<lambda>i. map (\<lambda>j. dot (embeddings ! i) (embeddings ! j)) [0..<length embeddings])
       [0..<length embeddings]"

section \<open>Strings\<close>

text \<open>
  A Python \<open>str\<close> is modelled as a list of the code points U+0000 to U+00FF, one
  \<open>char\<close> each. \<open>str.lower\<close> maps the upper-case letters of that range (A to Z, and
  U+00C0 to U+00DE without the multiplication sign U+00D7) to the code point 32 above.
  \<open>str.strip\<close> removes leading and trailing white space, which in that range is
  U+0009 to U+000D, U+001C to U+0020, U+0085 and U+00A0.
\<close>

definition isupper :: "char \<Rightarrow> bool" where
  "isupper c =
     (let n = (of_char c :: nat)
      in (65 \<le> n \<and> n \<le> 90) \<or> (192 \<le> n \<and> n \<le> 222 \<and> n \<noteq> 215))"

definition lower_char :: "char \<Rightarrow> char" where
  "lower_char c = (if isupper c then char_of ((of_char c :: nat) + 32) else c)"

definition lower :: "string \<Rightarrow> string" where
  "lower s = map lower_char s"

definition isspace :: "char \<Rightarrow> bool" where
  "isspace c =
     (let n = (of_char c :: nat)
      in (9 \<le> n \<and> n \<le> 13) \<or> (28 \<le> n \<and> n \<le> 32) \<or> n = 133 \<or> n = 160)"

definition strip :: "string \<Rightarrow> string" where
  "strip s = rev (dropWhile isspace (rev (dropWhile isspace s)))"

section \<open>Resolving a distance\<close>

datatype error =
    ValueError string
  | KeyError string
  | InvalidArgumentError
  | IndexOutOfRangeError

text \<open>
  The argument of \<open>distance_canonicalizer\<close>: a \<open>Distance\<close> object, a \<open>str\<close>, or any
  other Python object.
\<close>

datatype user_distance = DistanceObj Distance | Str string | Other

text \<open>
  One round of the loop over \<open>DISTANCES\<close> that fills the dictionaries \<open>mapping\<close>
  (name or alias to name) and \<open>name2fn\<close> (name to object). A later entry overwrites
  an earlier one with the same key, as a dictionary assignment does.
\<close>

definition register_distance ::
  "Distance \<Rightarrow> (string \<rightharpoonup> string) \<times> (string \<rightharpoonup> Distance) \<Rightarrow>
     (string \<rightharpoonup> string) \<times> (string \<rightharpoonup> Distance)" where
  "register_distance distance tables =
     (case tables of (mapping, name2fn) \<Rightarrow>
        (let mapping = mapping(name distance \<mapsto> name distance);
             name2fn = name2fn(name distance \<mapsto> distance);
             mapping = fold (\<lambda>alias m. m(alias \<mapsto> name distance)) (aliases distance) mapping
         in (mapping, name2fn)))"

definition build_tables ::
  "Distance list \<Rightarrow> (string \<rightharpoonup> string) \<times> (string \<rightharpoonup> Distance)" where
  "build_tables ds = fold register_distance ds (Map.empty, Map.empty)"

definition distance_canonicalizer :: "user_distance \<Rightarrow> error + Distance" where
  "distance_canonicalizer ud =
     (case ud of
        DistanceObj d \<Rightarrow> Inr d
      | Str s \<Rightarrow>
          (case build_tables DISTANCES of (mapping, name2fn) \<Rightarrow>
             (let s' = strip (lower s)
              in case mapping s' of
                   None \<Rightarrow> Inl (ValueError ''Metric not supported by the framework'')
                 | Some canonical \<Rightarrow>
                     (case name2fn canonical of
                        None \<Rightarrow> Inl (KeyError canonical)
                      | Some d \<Rightarrow> Inr d)))
      | Other \<Rightarrow>
          Inl (ValueError
            ''Unknown distance: must either be a MetricDistance                     or a known distance function''))"

text \<open>The names the registry knows: every canonical name and every alias.\<close>

definition known_names :: "Distance list \<Rightarrow> string set" where
  "known_names ds = (\<Union>d \<in> set ds. insert (name d) (set (aliases d)))"

section \<open>Recall at k\<close>

text \<open>
  A float that a reduction returns: a real number, or NaN where the reduction has no
  real result.
\<close>

datatype tf_float = Float real | NaN

fun tf_add :: "tf_float \<Rightarrow> tf_float \<Rightarrow> tf_float" where
  "tf_add (Float x) (Float y) = Float (x + y)"
| "tf_add _ _ = NaN"

text \<open>
  \<open>tf.math.divide(x, n)\<close> for a count \<open>n\<close>. \<open>0 / 0\<close> is NaN. In \<open>compute\<close> the divisor
  is 0 only when no class was summed, so the numerator is 0 there.
\<close>

fun tf_divide :: "tf_float \<Rightarrow> nat \<Rightarrow> tf_float" where
  "tf_divide (Float x) n = (if n = 0 then NaN else Float (x / real n))"
| "tf_divide NaN n = NaN"

text \<open>\<open>tf.math.reduce_mean\<close> of all the values of a tensor; NaN for a tensor with none.\<close>

definition reduce_mean :: "real list \<Rightarrow> tf_float" where
  "reduce_mean xs = (if xs = [] then NaN else Float (sum_list xs / real (length xs)))"

text \<open>\<open>tf.unique(x)[0]\<close>: the distinct values, in the order of their first occurrence.\<close>

fun unique :: "int list \<Rightarrow> int list" where
  "unique [] = []"
| "unique (x # xs) = x # unique (filter (\<lambda>y. y \<noteq> x) xs)"

text \<open>\<open>tf.where(query_labels == label)\<close>: the positions that hold the label, ascending.\<close>

definition where_equal :: "int list \<Rightarrow> int \<Rightarrow> nat list" where
  "where_equal query_labels label =
     filter (\<lambda>i. query_labels ! i = label) [0..<length query_labels]"

text \<open>\<open>tf.gather\<close> on the CPU: an index out of range is an error.\<close>

definition gather :: "real list \<Rightarrow> nat list \<Rightarrow> error + real list" where
  "gather params indices =
     (if list_all (\<lambda>i. i < length params) indices
      then Inr (map (\<lambda>i. params ! i) indices)
      else Inl InvalidArgumentError)"

text \<open>
  \<open>match_mask[:, :k]\<close>, \<open>reduce_any\<close> along each row, cast to float. \<open>k\<close> is a number of
  neighbours, a natural number.
\<close>

definition match_indicator :: "nat \<Rightarrow> BoolTensor \<Rightarrow> real list" where
  "match_indicator k match_mask =
     (let k_slice = map (take k) match_mask;
          match_indicator = map (list_ex (\<lambda>b. b)) k_slice
      in map (\<lambda>b. if b then 1 else 0) match_indicator)"

text \<open>The loop over the class labels of the macro average, from the accumulator given.\<close>

fun macro_loop :: "real list \<Rightarrow> int list \<Rightarrow> int list \<Rightarrow> tf_float \<Rightarrow> error + tf_float" where
  "macro_loop match_ind query_labels [] per_class_metrics = Inr per_class_metrics"
| "macro_loop match_ind query_labels (label # rest) per_class_metrics =
     (let idxs = where_equal query_labels label
      in case gather match_ind idxs of
           Inl e \<Rightarrow> Inl e
         | Inr c_slice \<Rightarrow>
             macro_loop match_ind query_labels rest
               (tf_add per_class_metrics (reduce_mean c_slice)))"

text \<open>
  \<open>RecallAtK.compute\<close>; \<open>self.k\<close> and \<open>self.average\<close> are its first two arguments.
\<close>

definition compute :: "nat \<Rightarrow> string \<Rightarrow> int list \<Rightarrow> BoolTensor \<Rightarrow> error + tf_float" where
  "compute k average query_labels match_mask =
     (let match_ind = match_indicator k match_mask
      in if average = ''micro'' then Inr (reduce_mean match_ind)
         else if average = ''macro'' then
           (let class_labels = unique query_labels
            in case macro_loop match_ind query_labels class_labels (Float 0) of
                 Inl e \<Rightarrow> Inl e
               | Inr per_class_metrics \<Rightarrow>
                   Inr (tf_divide per_class_metrics (length class_labels)))
         else Inl (ValueError (average @ '' is not a supported average option'')))"

text \<open>
  The macro average in the words of the specification: the queries are grouped by
  label, \<open>hit_rate\<close> is the mean of the indicator over the queries of one label, and
  \<open>macro_average\<close> is the mean of the hit rates over the labels, each label counting
  once. \<open>hit\<close> says that one of the first \<open>k\<close> entries of a row of the mask is true.
\<close>

definition hit :: "nat \<Rightarrow> bool list \<Rightarrow> bool" where
  "hit k row = (\<exists>j. j < k \<and> j < length row \<and> row ! j)"

definition queries_of :: "int list \<Rightarrow> int \<Rightarrow> nat set" where
  "queries_of query_labels label = {i. i < length query_labels \<and> query_labels ! i = label}"

definition hit_rate :: "nat \<Rightarrow> int list \<Rightarrow> BoolTensor \<Rightarrow> int \<Rightarrow> real" where
  "hit_rate k query_labels match_mask label =
     real (card {i \<in> queries_of query_labels label. hit k (match_mask ! i)})
       / real (card (queries_of query_labels label))"

definition macro_average :: "nat \<Rightarrow> int list \<Rightarrow> BoolTensor \<Rightarrow> real" where
  "macro_average k query_labels match_mask =
     (\<Sum>label \<in> set query_labels. hit_rate k query_labels match_mask label)
       / real (card (set query_labels))"

text \<open>The micro average: the share of the queries that have a hit.\<close>

definition micro_average :: "nat \<Rightarrow> BoolTensor \<Rightarrow> real" where
  "micro_average k match_mask =
     real (card {i. i < length match_mask \<and> hit k (match_mask ! i)})
       / real (length match_mask)"

section \<open>The indexer's store\<close>

text \<open>
  Modelled from the spec: \<open>Indexer.remove\<close> and the state it works on; the class
  \<open>Indexer\<close> is not among the source files, only its test is. The store is the two
  parallel sequences \<open>dataset_examples\<close> and \<open>dataset_labels\<close>; \<open>index\<close> is the sequence
  of embeddings the index is built from, entry \<open>i\<close> for store position \<open>i\<close>.
\<close>

record ('x, 'l, 'e) Indexer =
  dataset_examples :: "'x list"
  dataset_labels :: "'l list"
  index :: "'e list"

text \<open>
  Modelled from the spec: the size of the store, and the invariant that the raw items,
  the labels and the index have the same size.
\<close>

definition Indexer_size :: "('x, 'l, 'e) Indexer \<Rightarrow> nat" where
  "Indexer_size ix = length (dataset_labels ix)"

definition consistent :: "('x, 'l, 'e) Indexer \<Rightarrow> bool" where
  "consistent ix \<longleftrightarrow>
     length (dataset_examples ix) = length (dataset_labels ix) \<and>
     length (index ix) = length (dataset_labels ix)"

text \<open>
  Modelled from the spec: deleting one position of a sequence, every later position
  shifting down by one.
\<close>

definition delete_at :: "nat \<Rightarrow> 'a list \<Rightarrow> 'a list" where
  "delete_at i xs = take i xs @ drop (Suc i) xs"

text \<open>
  Modelled from the spec: \<open>Indexer.remove(position)\<close> removes the position from the
  store and from the index together; it is valid only for \<open>0 \<le> position < size\<close> and
  fails with \<open>IndexOutOfRangeError\<close> otherwise.
\<close>

definition Indexer_remove ::
  "int \<Rightarrow> ('x, 'l, 'e) Indexer \<Rightarrow> error + ('x, 'l, 'e) Indexer" where
  "Indexer_remove position ix =
     (if 0 \<le> position \<and> position < int (Indexer_size ix)
      then Inr (ix\<lparr>dataset_examples := delete_at (nat position) (dataset_examples ix),
                   dataset_labels := delete_at (nat position) (dataset_labels ix),
                   index := delete_at (nat position) (index ix)\<rparr>)
      else Inl IndexOutOfRangeError)"

section \<open>Floating-point arithmetic\<close>

text \<open>
  The distance kernels as TensorFlow evaluates them: every operation works in the binary
  floating-point format of the batch and rounds its exact result to the nearest value
  of that format, ties to even; a result too large becomes an infinity, and an
  operation without a value (\<open>inf - inf\<close>, \<open>0 * inf\<close>, the square root of a negative
  number) gives NaN. A format has \<open>precision\<close> significant bits and the largest
  exponent \<open>emax\<close>; the smallest exponent is \<open>emin = 1 - emax\<close>, below which the
  values are subnormal and keep the spacing of the smallest binade (they are not
  flushed to zero).
\<close>

datatype dtype = float16 | bfloat16 | float32 | float64

fun precision :: "dtype \<Rightarrow> nat" where
  "precision float16 = 11"
| "precision bfloat16 = 8"
| "precision float32 = 24"
| "precision float64 = 53"

fun emax :: "dtype \<Rightarrow> int" where
  "emax float16 = 15"
| "emax bfloat16 = 127"
| "emax float32 = 127"
| "emax float64 = 1023"

definition emin :: "dtype \<Rightarrow> int" where
  "emin d = 1 - emax d"

text \<open>
  A floating-point value: a finite number, an infinity or NaN. The two zeros
  \<open>+0\<close> and \<open>-0\<close> compare equal and are one value here.
\<close>

datatype float_value = Fin real | PInf | NInf | QNaN

definition pow2 :: "int \<Rightarrow> real" where
  "pow2 e = 2 powi e"

text \<open>
  The exponent of the binade of \<open>a \<ge> 0\<close>: the largest \<open>e\<close> from \<open>emin\<close> to \<open>emax\<close>
  with \<open>2 ^ e \<le> a\<close>, and \<open>emin\<close> when there is none. \<open>search n e a\<close> looks at the \<open>n\<close>
  exponents above \<open>e\<close>.
\<close>

primrec search :: "nat \<Rightarrow> int \<Rightarrow> real \<Rightarrow> int" where
  "search 0 e a = e"
| "search (Suc n) e a = (if pow2 (e + 1) \<le> a then search n (e + 1) a else e)"

definition exponent :: "dtype \<Rightarrow> real \<Rightarrow> int" where
  "exponent d a = search (nat (emax d - emin d)) (emin d) a"

text \<open>The distance between neighbouring values of the format in the binade of \<open>x\<close>.\<close>

definition quantum :: "dtype \<Rightarrow> real \<Rightarrow> real" where
  "quantum d x = pow2 (exponent d \<bar>x\<bar> - (int (precision d) - 1))"

text \<open>The nearest integer, ties to the even one.\<close>

definition rne :: "real \<Rightarrow> int" where
  "rne x =
     (let f = \<lfloor>x\<rfloor>; r = x - of_int f
      in if r < 1 / 2 then f else if 1 / 2 < r then f + 1 else if even f then f else f + 1)"

text \<open>Rounding an exact result to the format.\<close>

definition round_to :: "dtype \<Rightarrow> real \<Rightarrow> float_value" where
  "round_to d x =
     (let q = quantum d x; r = of_int (rne (x / q)) * q
      in if pow2 (emax d + 1) \<le> \<bar>r\<bar> then (if 0 < x then PInf else NInf) else Fin r)"


fun fneg :: "float_value \<Rightarrow> float_value" where
  "fneg (Fin x) = Fin (- x)"
| "fneg PInf = NInf"
| "fneg NInf = PInf"
| "fneg QNaN = QNaN"

fun fadd :: "dtype \<Rightarrow> float_value \<Rightarrow> float_value \<Rightarrow> float_value" where
  "fadd d QNaN y = QNaN"
| "fadd d x QNaN = QNaN"
| "fadd d (Fin x) (Fin y) = round_to d (x + y)"
| "fadd d PInf NInf = QNaN"
| "fadd d NInf PInf = QNaN"
| "fadd d PInf y = PInf"
| "fadd d x PInf = PInf"
| "fadd d NInf y = NInf"
| "fadd d x NInf = NInf"

definition fsub :: "dtype \<Rightarrow> float_value \<Rightarrow> float_value \<Rightarrow> float_value" where
  "fsub d x y = fadd d x (fneg y)"

text \<open>An infinity of the given sign times a finite number.\<close>

fun inf_times :: "bool \<Rightarrow> real \<Rightarrow> float_value" where
  "inf_times positive y =
     (if y = 0 then QNaN else if (0 < y) = positive then PInf else NInf)"

fun fmul :: "dtype \<Rightarrow> float_value \<Rightarrow> float_value \<Rightarrow> float_value" where
  "fmul d QNaN y = QNaN"
| "fmul d x QNaN = QNaN"
| "fmul d (Fin x) (Fin y) = round_to d (x * y)"
| "fmul d PInf (Fin y) = inf_times True y"
| "fmul d NInf (Fin y) = inf_times False y"
| "fmul d (Fin x) PInf = inf_times True x"
| "fmul d (Fin x) NInf = inf_times False x"
| "fmul d PInf PInf = PInf"
| "fmul d NInf NInf = PInf"
| "fmul d PInf NInf = NInf"
| "fmul d NInf PInf = NInf"

fun fsqrt :: "dtype \<Rightarrow> float_value \<Rightarrow> float_value" where
  "fsqrt d (Fin x) = (if x < 0 then QNaN else round_to d (sqrt x))"
| "fsqrt d PInf = PInf"
| "fsqrt d NInf = QNaN"
| "fsqrt d QNaN = QNaN"

fun fabs :: "float_value \<Rightarrow> float_value" where
  "fabs (Fin x) = Fin \<bar>x\<bar>"
| "fabs PInf = PInf"
| "fabs NInf = PInf"
| "fabs QNaN = QNaN"

text \<open>\<open>x \<le> y\<close> on floating-point values: false as soon as one of them is NaN.\<close>

fun fle :: "float_value \<Rightarrow> float_value \<Rightarrow> bool" where
  "fle QNaN y = False"
| "fle x QNaN = False"
| "fle (Fin x) (Fin y) = (x \<le> y)"
| "fle NInf y = True"
| "fle x PInf = True"
| "fle PInf y = False"
| "fle x NInf = False"

text \<open>\<open>tf.math.maximum\<close> on one entry: NaN as soon as one of the two is NaN.\<close>

definition fmaximum :: "float_value \<Rightarrow> float_value \<Rightarrow> float_value" where
  "fmaximum x y = (if x = QNaN \<or> y = QNaN then QNaN else if fle x y then y else x)"

text \<open>
  A Python number next to a tensor (\<open>2.0\<close>, \<open>1\<close>, \<open>0.0\<close>, \<open>1e-18\<close>) is converted to the
  dtype of the tensor.
\<close>

definition const :: "dtype \<Rightarrow> real \<Rightarrow> float_value" where
  "const d c = round_to d c"

text \<open>A rank-2 tensor of floats: its dtype and its rows.\<close>

record Tensor =
  dtype :: dtype
  entries :: "float_value list list"

text \<open>
  The failure of a kernel: the \<open>TypeError\<close> that tracing by \<open>tf.function\<close> raises for an
  operation on two tensors of different dtypes.
\<close>

datatype trace_error = TypeError

text \<open>
  The operations on the rows. A reduction adds from left to right, starting from 0 and
  rounding at each step; for rows of one entry the order of the additions plays no part.
\<close>

definition f_reduce_sum :: "dtype \<Rightarrow> float_value list \<Rightarrow> float_value" where
  "f_reduce_sum d row = foldl (fadd d) (Fin 0) row"

definition f_dot :: "dtype \<Rightarrow> float_value list \<Rightarrow> float_value list \<Rightarrow> float_value" where
  "f_dot d x y = f_reduce_sum d (map2 (fmul d) x y)"

definition f_matmul_transpose_b ::
  "dtype \<Rightarrow> float_value list list \<Rightarrow> float_value list list \<Rightarrow> float_value list list" where
  "f_matmul_transpose_b d a b = map (\<lambda>x. map (\<lambda>y. f_dot d x y) b) a"

definition f_reduce_sum_axis1_keepdims ::
  "dtype \<Rightarrow> float_value list list \<Rightarrow> float_value list list" where
  "f_reduce_sum_axis1_keepdims d t = map (\<lambda>row. [f_reduce_sum d row]) t"

definition f_square :: "dtype \<Rightarrow> float_value list list \<Rightarrow> float_value list list" where
  "f_square d t = map (map (\<lambda>v. fmul d v v)) t"

definition f_scale :: "dtype \<Rightarrow> float_value \<Rightarrow> float_value list list \<Rightarrow> float_value list list" where
  "f_scale d c t = map (map (\<lambda>v. fmul d c v)) t"

definition f_rsub :: "dtype \<Rightarrow> float_value \<Rightarrow> float_value list list \<Rightarrow> float_value list list" where
  "f_rsub d c t = map (map (\<lambda>v. fsub d c v)) t"

definition f_maximum :: "float_value list list \<Rightarrow> float_value \<Rightarrow> float_value list list" where
  "f_maximum t c = map (map (\<lambda>v. fmaximum v c)) t"

definition f_greater_equal :: "float_value list list \<Rightarrow> float_value \<Rightarrow> bool list list" where
  "f_greater_equal t c = map (map (\<lambda>v. fle c v)) t"

definition f_sqrt :: "dtype \<Rightarrow> float_value list list \<Rightarrow> float_value list list" where
  "f_sqrt d t = map (map (fsqrt d)) t"

text \<open>\<open>tf.cast(dist_mask, tf.float32)\<close>.\<close>

definition f_cast_float32 :: "bool list list \<Rightarrow> float_value list list" where
  "f_cast_float32 t = map (map (\<lambda>b. if b then Fin 1 else Fin 0)) t"

definition f_multiply ::
  "dtype \<Rightarrow> float_value list list \<Rightarrow> float_value list list \<Rightarrow> float_value list list" where
  "f_multiply d s t = map2 (map2 (fmul d)) s t"

definition f_transpose :: "float_value list list \<Rightarrow> float_value list list" where
  "f_transpose t =
     (case t of [] \<Rightarrow> [] | r # _ \<Rightarrow> map (\<lambda>j. map (\<lambda>row. row ! j) t) [0..<length r])"

definition f_sub_broadcast_col ::
  "dtype \<Rightarrow> float_value list list \<Rightarrow> float_value list list \<Rightarrow> float_value list list" where
  "f_sub_broadcast_col d col m = map2 (\<lambda>c row. map (\<lambda>v. fsub d (hd c) v) row) col m"

definition f_add_broadcast_row ::
  "dtype \<Rightarrow> float_value list list \<Rightarrow> float_value list list \<Rightarrow> float_value list list" where
  "f_add_broadcast_row d m r = map (\<lambda>row. map2 (fadd d) row (hd r)) m"

text \<open>
  \<open>EuclideanDistance.call\<close> on a tensor of floats. The mask is cast to \<open>tf.float32\<close>
  whatever the dtype of the batch, so the last multiplication has operands of two
  dtypes, and fails, unless the batch is a float32 tensor.
\<close>

definition EuclideanDistance_call_float :: "Tensor \<Rightarrow> trace_error + Tensor" where
  "EuclideanDistance_call_float t =
     (let d = dtype t; embeddings = entries t;
          squared_norm = f_square d embeddings;
          squared_norm = f_reduce_sum_axis1_keepdims d squared_norm;
          distances = f_scale d (const d 2) (f_matmul_transpose_b d embeddings embeddings);
          distances = f_add_broadcast_row d (f_sub_broadcast_col d squared_norm distances)
                        (f_transpose squared_norm);
          dist_mask = f_greater_equal distances (const d lit_1e_18);
          distances = f_maximum distances (const d lit_1e_18);
          root = f_sqrt d distances;
          mask = f_cast_float32 dist_mask
      in if d = float32 then Inr \<lparr>dtype = float32, entries = f_multiply float32 root mask\<rparr>
         else Inl TypeError)"

definition SquaredEuclideanDistance_call_float :: "Tensor \<Rightarrow> trace_error + Tensor" where
  "SquaredEuclideanDistance_call_float t =
     (let d = dtype t; embeddings = entries t;
          squared_norm = f_square d embeddings;
          squared_norm = f_reduce_sum_axis1_keepdims d squared_norm;
          distances = f_scale d (const d 2) (f_matmul_transpose_b d embeddings embeddings);
          distances = f_add_broadcast_row d (f_sub_broadcast_col d squared_norm distances)
                        (f_transpose squared_norm);
          distances = f_maximum distances (const d 0)
      in Inr \<lparr>dtype = d, entries = distances\<rparr>)"

definition CosineDistance_call_float :: "Tensor \<Rightarrow> trace_error + Tensor" where
  "CosineDistance_call_float t =
     (let d = dtype t; embeddings = entries t;
          distances = f_rsub d (const d 1) (f_matmul_transpose_b d embeddings embeddings);
          distances = f_maximum distances (const d 0)
      in Inr \<lparr>dtype = d, entries = distances\<rparr>)"

definition ManhattanDistance_call_float :: "Tensor \<Rightarrow> trace_error + Tensor" where
  "ManhattanDistance_call_float t =
     (let d = dtype t; x_rs = entries t;
          deltas = map (\<lambda>xi. map (\<lambda>xj. map2 (fsub d) xi xj) x_rs) x_rs;
          distances = map (map (\<lambda>delta. f_reduce_sum d (map fabs delta))) deltas
      in Inr \<lparr>dtype = d, entries = distances\<rparr>)"

text \<open>
  The squared norm of a row and the expansion of two rows, as the Euclidean kernels
  compute them: \<open>(||x||\<^sup>2 - 2 dot(x, y)) + ||y||\<^sup>2\<close>, rounded at every step.
\<close>

definition squared_norm_float :: "dtype \<Rightarrow> float_value list \<Rightarrow> float_value" where
  "squared_norm_float d x = f_reduce_sum d (map (\<lambda>v. fmul d v v) x)"

definition expansion_float :: "dtype \<Rightarrow> float_value list \<Rightarrow> float_value list \<Rightarrow> float_value" where
  "expansion_float d x y =
     fadd d (fsub d (squared_norm_float d x) (fmul d (const d 2) (f_dot d x y)))
       (squared_norm_float d y)"

section \<open>Auxiliary notions for the proofs\<close>

text \<open>
  The matrix both Euclidean kernels build before clamping: entry \<open>[i][j]\<close> is the
  expansion of the rows \<open>i\<close> and \<open>j\<close>.
\<close>

definition expansion_matrix :: "FloatTensor \<Rightarrow> FloatTensor" where
  "expansion_matrix e =
     add_broadcast_row
       (sub_broadcast_col (reduce_sum_axis1_keepdims (tf_square e))
          (tf_scale 2 (matmul_transpose_b e e)))
       (tf_transpose (reduce_sum_axis1_keepdims (tf_square e)))"

text \<open>Every name that \<open>mapping\<close> yields is a key of \<open>name2fn\<close>.\<close>

definition closed_tables :: "(string \<rightharpoonup> string) \<times> (string \<rightharpoonup> Distance) \<Rightarrow> bool" where
  "closed_tables t \<longleftrightarrow> ran (fst t) \<subseteq> dom (snd t)"

text \<open>The matrix of the expansions in floating-point arithmetic.\<close>

definition expansion_matrix_float :: "dtype \<Rightarrow> float_value list list \<Rightarrow> float_value list list" where
  "expansion_matrix_float d e =
     f_add_broadcast_row d
       (f_sub_broadcast_col d (f_reduce_sum_axis1_keepdims d (f_square d e))
          (f_scale d (const d 2) (f_matmul_transpose_b d e e)))
       (f_transpose (f_reduce_sum_axis1_keepdims d (f_square d e)))"


text \<open>
  What lines 134 to 136 of \<open>EuclideanDistance.call\<close> make of one entry of a float32
  tensor: the mask, the clamp, the square root and the product with the mask.
\<close>

definition threshold :: "float_value \<Rightarrow> float_value" where
  "threshold v =
     fmul float32 (fsqrt float32 (fmaximum v (const float32 lit_1e_18)))
       (if fle (const float32 lit_1e_18) v then Fin 1 else Fin 0)"

section \<open>The kernels, entry by entry\<close>

lemma length_expansion_matrix: "length (expansion_matrix e) = length e"
  by (simp add: expansion_matrix_def add_broadcast_row_def sub_broadcast_col_def
      reduce_sum_axis1_keepdims_def tf_square_def tf_scale_def matmul_transpose_b_def)

lemma hd_transpose_col:
  "e \<noteq> [] \<Longrightarrow> hd (tf_transpose (reduce_sum_axis1_keepdims (tf_square e)))
     = map (\<lambda>x. sum_list (map (\<lambda>v. v * v) x)) e"
  by (cases e) (simp_all add: tf_transpose_def reduce_sum_axis1_keepdims_def tf_square_def comp_def)

lemma nth_expansion_matrix:
  assumes "i < length e"
  shows "expansion_matrix e ! i = map (\<lambda>y. expansion (e ! i) y) e"
proof -
  from assms have ne: "e \<noteq> []" by auto
  show ?thesis
    unfolding expansion_matrix_def add_broadcast_row_def hd_transpose_col [OF ne]
    using assms
    by (simp add: sub_broadcast_col_def reduce_sum_axis1_keepdims_def tf_square_def
        tf_scale_def matmul_transpose_b_def expansion_def list_eq_iff_nth_eq)
qed

lemma EuclideanDistance_call_nth:
  assumes "i < length e"
  shows "EuclideanDistance_call e ! i =
    map (\<lambda>y. if lit_1e_18 \<le> expansion (e ! i) y then sqrt (expansion (e ! i) y) else 0) e"
proof -
  have "EuclideanDistance_call e =
      tf_multiply (tf_sqrt (tf_maximum (expansion_matrix e) lit_1e_18))
        (tf_cast_float (tf_greater_equal (expansion_matrix e) lit_1e_18))"
    by (simp add: EuclideanDistance_call_def expansion_matrix_def Let_def)
  then show ?thesis
    using assms
    by (simp add: tf_multiply_def tf_sqrt_def tf_maximum_def tf_cast_float_def
        tf_greater_equal_def length_expansion_matrix nth_expansion_matrix
        list_eq_iff_nth_eq max_def)
qed


lemma EuclideanDistance_call_eq:
  "EuclideanDistance_call e =
     map (\<lambda>x. map (\<lambda>y. if lit_1e_18 \<le> expansion x y then sqrt (expansion x y) else 0) e) e"
proof -
  have "length (EuclideanDistance_call e) = length e"
    by (simp add: EuclideanDistance_call_def Let_def tf_multiply_def tf_sqrt_def tf_maximum_def
        tf_cast_float_def tf_greater_equal_def length_expansion_matrix
        flip: expansion_matrix_def)
  then show ?thesis
    by (simp add: list_eq_iff_nth_eq EuclideanDistance_call_nth)
qed

lemma SquaredEuclideanDistance_call_eq:
  "SquaredEuclideanDistance_call e = map (\<lambda>x. map (\<lambda>y. max (expansion x y) 0) e) e"
proof -
  have "SquaredEuclideanDistance_call e = tf_maximum (expansion_matrix e) 0"
    by (simp add: SquaredEuclideanDistance_call_def expansion_matrix_def Let_def)
  then show ?thesis
    by (simp add: tf_maximum_def list_eq_iff_nth_eq length_expansion_matrix nth_expansion_matrix)
qed

lemma CosineDistance_call_eq:
  "CosineDistance_call e = map (\<lambda>x. map (\<lambda>y. max (1 - dot x y) 0) e) e"
  by (simp add: CosineDistance_call_def Let_def tf_maximum_def tf_rsub_def
      matmul_transpose_b_def comp_def)

lemma ManhattanDistance_call_eq:
  "ManhattanDistance_call e = map (\<lambda>x. map (\<lambda>y. sum_list (map abs (map2 (-) x y))) e) e"
  by (simp add: ManhattanDistance_call_def Let_def comp_def)

lemma InnerProductSimilarity_call_eq:
  "InnerProductSimilarity_call e = map (\<lambda>x. [sum_list (map (dot x) e)]) e"
  by (simp add: InnerProductSimilarity_call_def Let_def reduce_sum_axis1_keepdims_def
      matmul_transpose_b_def comp_def)

text \<open>
  The four distance kernels return an \<open>N \<times> N\<close> matrix whose entry \<open>[i][j]\<close> depends on
  the rows \<open>i\<close> and \<open>j\<close> of the batch only.
\<close>

lemma distance_kernels_pairwise:
  assumes "i < length e" and "j < length e"
  shows "length (EuclideanDistance_call e) = length e"
    and "length (EuclideanDistance_call e ! i) = length e"
    and "length (SquaredEuclideanDistance_call e) = length e"
    and "length (SquaredEuclideanDistance_call e ! i) = length e"
    and "SquaredEuclideanDistance_call e ! i ! j = max (expansion (e ! i) (e ! j)) 0"
    and "length (CosineDistance_call e) = length e"
    and "length (CosineDistance_call e ! i) = length e"
    and "CosineDistance_call e ! i ! j = max (1 - dot (e ! i) (e ! j)) 0"
    and "length (ManhattanDistance_call e) = length e"
    and "length (ManhattanDistance_call e ! i) = length e"
    and "ManhattanDistance_call e ! i ! j = sum_list (map abs (map2 (-) (e ! i) (e ! j)))"
  using assms
  by (simp_all add: EuclideanDistance_call_eq SquaredEuclideanDistance_call_eq
      CosineDistance_call_eq ManhattanDistance_call_eq)

text \<open>
  Claim C1, at the inner product: every kernel of the registry is to return an
  \<open>N \<times> N\<close> matrix of pairwise values. The first kernel of \<open>DISTANCES\<close>, the inner
  product, returns an \<open>N \<times> 1\<close> column instead: on the batch of the two unit vectors of
  the plane it returns \<open>[[1], [1]]\<close>, where the pairwise inner products are
  \<open>[[1, 0], [0, 1]]\<close>.
\<close>

theorem InnerProductSimilarity_call_column:
  "call (DISTANCES ! 0) [[1, 0], [0, 1]] = [[1], [1]] \<and>
   name (DISTANCES ! 0) = ''inner_product'' \<and>
   pairwise_inner_product [[1, 0], [0, 1]] = [[1, 0], [0, 1]]"
  by (simp add: DISTANCES_def InnerProductSimilarity_def InnerProductSimilarity_call_eq
      pairwise_inner_product_def dot_def upt_rec)



section \<open>The distance kernels in floating-point arithmetic\<close>

subsection \<open>Rounding\<close>

lemma pow2_pos: "0 < pow2 e"
  by (simp add: pow2_def)

lemma pow2_add: "pow2 (a + b) = pow2 a * pow2 b"
  by (simp add: pow2_def power_int_add)

lemma pow2_diff: "pow2 (a - b) = pow2 a / pow2 b"
  by (simp add: pow2_def power_int_diff)

lemma pow2_mono: "a \<le> b \<Longrightarrow> pow2 a \<le> pow2 b"
  by (simp add: pow2_def power_int_increasing)

lemma pow2_strict_mono: "a < b \<Longrightarrow> pow2 a < pow2 b"
  by (simp add: pow2_def power_int_strict_increasing)

lemma pow2_le_iff: "pow2 a \<le> pow2 b \<longleftrightarrow> a \<le> b"
  using pow2_mono [of a b] pow2_strict_mono [of b a] by (auto simp: not_le [symmetric])

lemma pow2_nonneg_int: "0 \<le> a \<Longrightarrow> pow2 a = of_int (2 ^ nat a)"
  by (simp add: pow2_def power_int_nonneg_exp)

lemma search_bounds: "e \<le> search n e a \<and> search n e a \<le> e + int n"
proof (induction n arbitrary: e)
  case 0
  show ?case by simp
next
  case (Suc n)
  from Suc [of "e + 1"] show ?case by auto
qed

lemma search_lower: "search n e a \<noteq> e \<Longrightarrow> pow2 (search n e a) \<le> a"
proof (induction n arbitrary: e)
  case 0
  then show ?case by simp
next
  case (Suc n)
  show ?case
  proof (cases "pow2 (e + 1) \<le> a")
    case True
    show ?thesis
    proof (cases "search n (e + 1) a = e + 1")
      case True
      with \<open>pow2 (e + 1) \<le> a\<close> show ?thesis by simp
    next
      case False
      with True Suc.IH [of "e + 1"] show ?thesis by simp
    qed
  next
    case False
    with Suc.prems show ?thesis by simp
  qed
qed

lemma search_upper: "search n e a < e + int n \<Longrightarrow> a < pow2 (search n e a + 1)"
proof (induction n arbitrary: e)
  case 0
  then show ?case by simp
next
  case (Suc n)
  show ?case
  proof (cases "pow2 (e + 1) \<le> a")
    case True
    with Suc.prems Suc.IH [of "e + 1"] show ?thesis by simp
  next
    case False
    then show ?thesis by simp
  qed
qed

lemma emax_pos: "1 \<le> emax d"
  by (cases d) simp_all

lemma precision_pos: "1 \<le> precision d"
  by (cases d) simp_all

lemma exponent_range: "emin d \<le> exponent d a \<and> exponent d a \<le> emax d"
  using search_bounds [of "emin d" "nat (emax d - emin d)" a] emax_pos [of d]
  by (simp add: exponent_def emin_def)

lemma exponent_lower: "exponent d a \<noteq> emin d \<Longrightarrow> pow2 (exponent d a) \<le> a"
  unfolding exponent_def by (rule search_lower)

lemma exponent_upper: "exponent d a \<noteq> emax d \<Longrightarrow> a < pow2 (exponent d a + 1)"
proof -
  assume "exponent d a \<noteq> emax d"
  with exponent_range [of d a] have "exponent d a < emax d" by simp
  then have "search (nat (emax d - emin d)) (emin d) a < emin d + int (nat (emax d - emin d))"
    using emax_pos [of d] by (simp add: exponent_def emin_def)
  then show ?thesis
    unfolding exponent_def by (rule search_upper)
qed

lemma exponent_eq:
  assumes "emin d \<le> e" and "e \<le> emax d"
    and "pow2 e \<le> a \<or> e = emin d" and "a < pow2 (e + 1) \<or> e = emax d"
  shows "exponent d a = e"
proof (rule ccontr)
  assume ne: "exponent d a \<noteq> e"
  let ?r = "exponent d a"
  note r = exponent_range [of d a]
  show False
  proof (cases "?r < e")
    case True
    with assms(2) r have "a < pow2 (?r + 1)"
      by (intro exponent_upper) simp
    also from True have "pow2 (?r + 1) \<le> pow2 e"
      by (intro pow2_mono) simp
    finally have "a < pow2 e" .
    moreover from True r assms(3) have "pow2 e \<le> a" by auto
    ultimately show False by simp
  next
    case False
    with ne have gt: "e < ?r" by simp
    with assms(1) have "pow2 ?r \<le> a"
      by (intro exponent_lower) simp
    moreover from gt r assms(4) have "a < pow2 (e + 1)" by auto
    moreover from gt have "pow2 (e + 1) \<le> pow2 ?r"
      by (intro pow2_mono) simp
    ultimately show False by simp
  qed
qed

lemma rne_of_int: "rne (of_int k) = k"
  by (simp add: rne_def)

lemma rne_floor: "\<lfloor>x\<rfloor> \<le> rne x \<and> rne x \<le> \<lfloor>x\<rfloor> + 1"
  by (simp add: rne_def Let_def)

lemma rne_ge:
  assumes "of_int m \<le> x"
  shows "m \<le> rne x"
proof -
  from assms have "m \<le> \<lfloor>x\<rfloor>" by (simp add: le_floor_iff)
  with rne_floor [of x] show ?thesis by simp
qed

lemma rne_le:
  assumes "x \<le> of_int m"
  shows "rne x \<le> m"
proof (cases "x = of_int m")
  case True
  then show ?thesis by (simp add: rne_of_int)
next
  case False
  with assms have "x < of_int m" by simp
  then have "\<lfloor>x\<rfloor> < m" by (simp add: floor_less_iff)
  with rne_floor [of x] show ?thesis by simp
qed

lemma quantum_pos: "0 < quantum d x"
  by (simp add: quantum_def pow2_pos)

lemma round_to_not_nan: "round_to d x \<noteq> QNaN"
  by (simp add: round_to_def Let_def)

lemma round_to_zero: "round_to d 0 = Fin 0"
  by (simp add: round_to_def Let_def rne_def pow2_pos not_le)


lemma round_to_multiple:
  assumes "x = of_int k * quantum d x" and "\<bar>x\<bar> < pow2 (emax d + 1)"
  shows "round_to d x = Fin x"
proof -
  have "x / quantum d x = of_int k"
    using assms(1) quantum_pos [of d x]
    by (metis nonzero_mult_div_cancel_right less_irrefl)
  then have "of_int (rne (x / quantum d x)) * quantum d x = x"
    using assms(1) by (simp add: rne_of_int)
  then show ?thesis
    using assms(2) by (simp add: round_to_def Let_def)
qed

lemma round_to_at:
  assumes "emin d \<le> e" and "e \<le> emax d"
    and "pow2 e \<le> \<bar>x\<bar> \<or> e = emin d" and "\<bar>x\<bar> < pow2 (e + 1) \<or> e = emax d"
  shows "round_to d x =
     (let q = pow2 (e - (int (precision d) - 1)); r = of_int (rne (x / q)) * q
      in if pow2 (emax d + 1) \<le> \<bar>r\<bar> then (if 0 < x then PInf else NInf) else Fin r)"
  by (simp add: round_to_def quantum_def exponent_eq [OF assms])

lemma pow2_precision: "pow2 (int (precision d)) = of_int (2 ^ precision d)"
  by (simp add: pow2_def)

lemma pow2_next_binade:
  "pow2 (e + 1) = of_int (2 ^ precision d) * pow2 (e - (int (precision d) - 1))"
proof -
  have "pow2 (e + 1) = pow2 (int (precision d) + (e - (int (precision d) - 1)))"
    by (rule arg_cong [where f = pow2]) simp
  also have "\<dots> = pow2 (int (precision d)) * pow2 (e - (int (precision d) - 1))"
    by (rule pow2_add)
  finally show ?thesis
    unfolding pow2_precision .
qed

lemma pow2_binade:
  "pow2 e = of_int (2 ^ (precision d - 1)) * pow2 (e - (int (precision d) - 1))"
proof -
  have a: "int (precision d - 1) = int (precision d) - 1"
    using precision_pos [of d] by (simp add: of_nat_diff)
  have "pow2 (int (precision d - 1)) = of_int (2 ^ (precision d - 1))"
    by (simp add: pow2_def)
  then have b: "pow2 (int (precision d) - 1) = of_int (2 ^ (precision d - 1))"
    unfolding a .
  have "pow2 e = pow2 ((int (precision d) - 1) + (e - (int (precision d) - 1)))"
    by (rule arg_cong [where f = pow2]) simp
  also have "\<dots> = pow2 (int (precision d) - 1) * pow2 (e - (int (precision d) - 1))"
    by (rule pow2_add)
  finally show ?thesis
    unfolding b .
qed

lemma rne_abs_le:
  assumes "\<bar>x\<bar> \<le> of_int m"
  shows "\<bar>rne x\<bar> \<le> m"
proof -
  from assms have "of_int (- m) \<le> x" by simp
  then have "- m \<le> rne x" by (rule rne_ge)
  moreover from assms have "x \<le> of_int m" by simp
  then have "rne x \<le> m" by (rule rne_le)
  ultimately show ?thesis by simp
qed

lemma rounded_abs_le:
  assumes "\<bar>x\<bar> \<le> of_int m * q" and "0 < q"
  shows "\<bar>of_int (rne (x / q)) * q\<bar> \<le> of_int m * q"
proof -
  from assms have "\<bar>x / q\<bar> \<le> of_int m"
    by (simp add: pos_divide_le_eq)
  then have "\<bar>rne (x / q)\<bar> \<le> m"
    by (rule rne_abs_le)
  then have "\<bar>of_int (rne (x / q)) :: real\<bar> \<le> of_int m"
    by (metis of_int_abs of_int_le_iff)
  then show ?thesis
    using assms(2) by (simp add: abs_mult)
qed

lemma round_to_idem:
  assumes "round_to d x = Fin r"
  shows "round_to d r = Fin r"
proof -
  let ?q = "quantum d x" and ?n = "rne (x / quantum d x)"
  let ?e = "exponent d \<bar>x\<bar>" and ?e' = "exponent d \<bar>r\<bar>"
  from assms have r: "r = of_int ?n * ?q" and fin: "\<bar>r\<bar> < pow2 (emax d + 1)"
    by (auto simp: round_to_def Let_def split: if_splits)
  have "\<exists>k::int. r = of_int k * quantum d r"
  proof (cases "?e' \<le> ?e")
    case True
    have "?q = pow2 ((?e - ?e') + (?e' - (int (precision d) - 1)))"
      unfolding quantum_def by (rule arg_cong [where f = pow2]) simp
    also have "\<dots> = pow2 (?e - ?e') * quantum d r"
      by (simp only: pow2_add quantum_def)
    also have "pow2 (?e - ?e') = of_int (2 ^ nat (?e - ?e'))"
      using True by (simp add: pow2_nonneg_int)
    finally have "r = of_int (?n * 2 ^ nat (?e - ?e')) * quantum d r"
      using r by simp
    then show ?thesis ..
  next
    case False
    then have lt: "?e < ?e'" by simp
    note re = exponent_range [of d "\<bar>x\<bar>"] and re' = exponent_range [of d "\<bar>r\<bar>"]
    from lt re have "?e' \<noteq> emin d" by simp
    then have lo: "pow2 ?e' \<le> \<bar>r\<bar>" by (rule exponent_lower)
    from lt re' have "?e \<noteq> emax d" by simp
    then have "\<bar>x\<bar> < pow2 (?e + 1)" by (rule exponent_upper)
    moreover have nb: "pow2 (?e + 1) = of_int (2 ^ precision d) * ?q"
      unfolding quantum_def by (rule pow2_next_binade)
    ultimately have "\<bar>x\<bar> \<le> of_int (2 ^ precision d) * ?q"
      by linarith
    then have "\<bar>of_int ?n * ?q\<bar> \<le> of_int (2 ^ precision d) * ?q"
      using quantum_pos by (rule rounded_abs_le)
    then have hi: "\<bar>r\<bar> \<le> pow2 (?e + 1)"
      by (simp only: r nb)
    with lo have "pow2 ?e' \<le> pow2 (?e + 1)" by simp
    then have "?e' \<le> ?e + 1" by (simp add: pow2_le_iff)
    with lt have e': "?e' = ?e + 1" by simp
    with lo hi have "\<bar>r\<bar> = pow2 ?e'" by simp
    also have "pow2 ?e' = of_int (2 ^ (precision d - 1)) * quantum d r"
      unfolding quantum_def by (rule pow2_binade)
    finally have "\<bar>r\<bar> = of_int (2 ^ (precision d - 1)) * quantum d r" .
    then have "r = of_int (2 ^ (precision d - 1)) * quantum d r \<or>
        r = of_int (- (2 ^ (precision d - 1))) * quantum d r"
      by (cases "0 \<le> r") (simp_all only: abs_of_nonneg abs_of_neg not_le of_int_minus
          mult_minus_left, linarith+)
    then show ?thesis by blast
  qed
  then obtain k :: int where "r = of_int k * quantum d r" ..
  then show ?thesis using fin by (rule round_to_multiple)
qed

lemma round_to_finite:
  assumes "\<bar>y\<bar> \<le> pow2 (emax d)"
  shows "\<exists>r. round_to d y = Fin r"
proof -
  let ?e = "exponent d \<bar>y\<bar>"
  let ?k = "nat (emax d - ?e + (int (precision d) - 1))"
  have "?e \<le> emax d"
    using exponent_range [of d "\<bar>y\<bar>"] by simp
  then have k: "emax d - ?e + (int (precision d) - 1) \<ge> 0"
    using precision_pos [of d] by simp
  have "pow2 (emax d) = pow2 ((emax d - ?e + (int (precision d) - 1)) + (?e - (int (precision d) - 1)))"
    by (rule arg_cong [where f = pow2]) simp
  also have "\<dots> = pow2 (emax d - ?e + (int (precision d) - 1)) * quantum d y"
    by (simp only: pow2_add quantum_def)
  also have "pow2 (emax d - ?e + (int (precision d) - 1)) = of_int (2 ^ ?k)"
    using k by (rule pow2_nonneg_int)
  finally have m: "pow2 (emax d) = of_int (2 ^ ?k) * quantum d y" .
  with assms have "\<bar>y\<bar> \<le> of_int (2 ^ ?k) * quantum d y" by simp
  then have "\<bar>of_int (rne (y / quantum d y)) * quantum d y\<bar> \<le> of_int (2 ^ ?k) * quantum d y"
    using quantum_pos by (rule rounded_abs_le)
  also have "\<dots> < pow2 (emax d + 1)"
    unfolding m [symmetric] by (rule pow2_strict_mono) simp
  finally show ?thesis
    by (simp add: round_to_def Let_def)
qed

subsection \<open>The kernels, entry by entry\<close>

lemma length_expansion_matrix_float: "length (expansion_matrix_float d e) = length e"
  by (simp add: expansion_matrix_float_def f_add_broadcast_row_def f_sub_broadcast_col_def
      f_reduce_sum_axis1_keepdims_def f_square_def f_scale_def f_matmul_transpose_b_def)

lemma hd_transpose_col_float:
  "e \<noteq> [] \<Longrightarrow> hd (f_transpose (f_reduce_sum_axis1_keepdims d (f_square d e)))
     = map (squared_norm_float d) e"
  by (cases e) (simp_all add: f_transpose_def f_reduce_sum_axis1_keepdims_def f_square_def
      squared_norm_float_def comp_def)

lemma nth_expansion_matrix_float:
  assumes "i < length e"
  shows "expansion_matrix_float d e ! i = map (\<lambda>y. expansion_float d (e ! i) y) e"
proof -
  from assms have ne: "e \<noteq> []" by auto
  show ?thesis
    unfolding expansion_matrix_float_def f_add_broadcast_row_def hd_transpose_col_float [OF ne]
    using assms
    by (simp add: f_sub_broadcast_col_def f_reduce_sum_axis1_keepdims_def f_square_def
        f_scale_def f_matmul_transpose_b_def expansion_float_def squared_norm_float_def
        list_eq_iff_nth_eq)
qed

lemma expansion_matrix_float_eq:
  "expansion_matrix_float d e = map (\<lambda>x. map (\<lambda>y. expansion_float d x y) e) e"
  by (simp add: list_eq_iff_nth_eq length_expansion_matrix_float nth_expansion_matrix_float)

lemma const_zero: "const d 0 = Fin 0"
  by (simp add: const_def round_to_zero)

lemma const_lit: "const float32 lit_1e_18 = Fin (9671407 / 2 ^ 83)"
  unfolding const_def
  by (subst round_to_at [where e = "-60"]) (simp_all add: emin_def pow2_def rne_def)

lemma const_lit_numeral:
  "const float32 (1 / 1000000000000000000) = Fin (9671407 / 9671406556917033397649408)"
  using const_lit by simp








lemma fmul_one: "fmul d (round_to d s) (Fin 1) = round_to d s"
proof (cases "round_to d s")
  case (Fin r)
  then have "round_to d r = Fin r" by (rule round_to_idem)
  with Fin show ?thesis by simp
qed simp_all

lemma fadd_zero: "fadd d (Fin 0) (round_to d s) = round_to d s"
proof (cases "round_to d s")
  case (Fin r)
  then have "round_to d r = Fin r" by (rule round_to_idem)
  with Fin show ?thesis by simp
qed (simp_all add: round_to_not_nan)

lemma fsqrt_lit_finite: "\<exists>s. fsqrt float32 (const float32 lit_1e_18) = Fin s"
proof -
  let ?l = "9671407 / 2 ^ 83 :: real"
  have "sqrt ?l \<le> sqrt 1"
    by (rule real_sqrt_le_mono) simp
  moreover have "(1::real) \<le> pow2 (emax float32)"
    by (simp add: pow2_def)
  moreover have "0 \<le> sqrt ?l"
    by simp
  ultimately have "\<bar>sqrt ?l\<bar> \<le> pow2 (emax float32)"
    by (simp only: abs_of_nonneg real_sqrt_one)
  then have "\<exists>s. round_to float32 (sqrt ?l) = Fin s"
    by (rule round_to_finite)
  moreover have "fsqrt float32 (const float32 lit_1e_18) = round_to float32 (sqrt ?l)"
    unfolding const_lit by simp
  ultimately show ?thesis
    by (simp only:)
qed

lemma threshold_eq:
  "threshold v =
     (if v = QNaN then QNaN
      else if fle (const float32 lit_1e_18) v then fsqrt float32 v
      else Fin 0)"
proof (cases "v = QNaN")
  case True
  then show ?thesis by (simp add: threshold_def fmaximum_def)
next
  case nan: False
  let ?lit = "const float32 lit_1e_18"
  show ?thesis
  proof (cases "fle ?lit v")
    case True
    then have m: "fmaximum v ?lit = v"
      using nan by (cases v) (auto simp: fmaximum_def const_lit_numeral)
    have "fmul float32 (fsqrt float32 v) (Fin 1) = fsqrt float32 v"
      by (cases v) (simp_all add: fmul_one)
    with True nan m show ?thesis by (simp add: threshold_def)
  next
    case False
    then have m: "fmaximum v ?lit = ?lit"
      using nan by (cases v) (auto simp: fmaximum_def const_lit_numeral)
    obtain s where "fsqrt float32 ?lit = Fin s"
      using fsqrt_lit_finite by blast
    with False nan m show ?thesis by (simp add: threshold_def round_to_zero)
  qed
qed



lemma EuclideanDistance_call_float_eq:
  assumes "dtype t = float32"
  shows "EuclideanDistance_call_float t =
    Inr \<lparr>dtype = float32,
         entries = map (\<lambda>x. map (\<lambda>y. threshold (expansion_float float32 x y)) (entries t))
                     (entries t)\<rparr>"
proof -
  have "EuclideanDistance_call_float t =
      Inr \<lparr>dtype = float32,
           entries = f_multiply float32
             (f_sqrt float32 (f_maximum (expansion_matrix_float float32 (entries t))
                (const float32 lit_1e_18)))
             (f_cast_float32 (f_greater_equal (expansion_matrix_float float32 (entries t))
                (const float32 lit_1e_18)))\<rparr>"
    using assms by (simp add: EuclideanDistance_call_float_def expansion_matrix_float_def Let_def)
  also have "f_multiply float32
             (f_sqrt float32 (f_maximum (expansion_matrix_float float32 (entries t))
                (const float32 lit_1e_18)))
             (f_cast_float32 (f_greater_equal (expansion_matrix_float float32 (entries t))
                (const float32 lit_1e_18)))
      = map (\<lambda>x. map (\<lambda>y. threshold (expansion_float float32 x y)) (entries t)) (entries t)"
    unfolding expansion_matrix_float_eq
    by (simp add: f_multiply_def f_sqrt_def f_maximum_def f_cast_float32_def
        f_greater_equal_def threshold_def list_eq_iff_nth_eq)
  finally show ?thesis .
qed

lemma EuclideanDistance_call_float_other:
  "dtype t \<noteq> float32 \<Longrightarrow> EuclideanDistance_call_float t = Inl TypeError"
  by (simp add: EuclideanDistance_call_float_def Let_def)

lemma SquaredEuclideanDistance_call_float_eq:
  "SquaredEuclideanDistance_call_float t =
    Inr \<lparr>dtype = dtype t,
         entries = map (\<lambda>x. map (\<lambda>y. fmaximum (expansion_float (dtype t) x y) (Fin 0))
                     (entries t)) (entries t)\<rparr>"
proof -
  have "SquaredEuclideanDistance_call_float t =
      Inr \<lparr>dtype = dtype t,
           entries = f_maximum (expansion_matrix_float (dtype t) (entries t)) (const (dtype t) 0)\<rparr>"
    by (simp add: SquaredEuclideanDistance_call_float_def expansion_matrix_float_def Let_def)
  then show ?thesis
    by (simp add: expansion_matrix_float_eq f_maximum_def const_zero comp_def)
qed

lemma CosineDistance_call_float_eq:
  "CosineDistance_call_float t =
    Inr \<lparr>dtype = dtype t,
         entries = map (\<lambda>x. map (\<lambda>y. fmaximum (fsub (dtype t) (const (dtype t) 1)
                       (f_dot (dtype t) x y)) (Fin 0)) (entries t)) (entries t)\<rparr>"
  by (simp add: CosineDistance_call_float_def Let_def f_maximum_def f_rsub_def
      f_matmul_transpose_b_def const_zero comp_def)

lemma ManhattanDistance_call_float_eq:
  "ManhattanDistance_call_float t =
    Inr \<lparr>dtype = dtype t,
         entries = map (\<lambda>x. map (\<lambda>y. f_reduce_sum (dtype t) (map fabs (map2 (fsub (dtype t)) x y)))
                     (entries t)) (entries t)\<rparr>"
  by (simp add: ManhattanDistance_call_float_def Let_def comp_def)

text \<open>In floating-point arithmetic too the four distance kernels return \<open>N \<times> N\<close> entries.\<close>

lemma distance_kernels_float_shape:
  assumes "i < length (entries t)"
  shows "\<exists>r. SquaredEuclideanDistance_call_float t = Inr r \<and>
      length (entries r) = length (entries t) \<and> length (entries r ! i) = length (entries t)"
    and "\<exists>r. CosineDistance_call_float t = Inr r \<and>
      length (entries r) = length (entries t) \<and> length (entries r ! i) = length (entries t)"
    and "\<exists>r. ManhattanDistance_call_float t = Inr r \<and>
      length (entries r) = length (entries t) \<and> length (entries r ! i) = length (entries t)"
    and "dtype t = float32 \<Longrightarrow> \<exists>r. EuclideanDistance_call_float t = Inr r \<and>
      length (entries r) = length (entries t) \<and> length (entries r ! i) = length (entries t)"
  using assms
  by (simp_all add: SquaredEuclideanDistance_call_float_eq CosineDistance_call_float_eq
      ManhattanDistance_call_float_eq EuclideanDistance_call_float_eq)

subsection \<open>Evaluating the kernels on a batch\<close>

lemma exponent_small:
  assumes "a < pow2 (int (precision d))"
  shows "exponent d a \<le> int (precision d) - 1"
proof (cases "exponent d a = emin d")
  case True
  then show ?thesis
    using emax_pos [of d] precision_pos [of d] by (simp add: emin_def)
next
  case False
  then have "pow2 (exponent d a) \<le> a" by (rule exponent_lower)
  with assms have "pow2 (exponent d a) < pow2 (int (precision d))" by simp
  then have "\<not> int (precision d) \<le> exponent d a"
    using pow2_mono [of "int (precision d)" "exponent d a"] by auto
  then show ?thesis by simp
qed

lemma precision_le_emax: "int (precision d) \<le> emax d + 1"
  by (cases d) simp_all

lemma round_to_of_int:
  assumes "\<bar>k\<bar> < 2 ^ precision d"
  shows "round_to d (of_int k) = Fin (of_int k)"
proof -
  let ?e = "exponent d \<bar>of_int k\<bar>"
  let ?s = "int (precision d) - 1 - ?e"
  from assms have "\<bar>of_int k :: real\<bar> < of_int (2 ^ precision d)"
    by (metis of_int_abs of_int_less_iff)
  then have small: "\<bar>of_int k :: real\<bar> < pow2 (int (precision d))"
    by (simp only: pow2_precision)
  then have "?e \<le> int (precision d) - 1"
    by (rule exponent_small)
  then have s: "0 \<le> ?s" by simp
  have "1 = pow2 (?s + (?e - (int (precision d) - 1)))"
    by (simp add: pow2_def)
  also have "\<dots> = pow2 ?s * quantum d (of_int k)"
    by (simp only: pow2_add quantum_def)
  also have "pow2 ?s = of_int (2 ^ nat ?s)"
    using s by (rule pow2_nonneg_int)
  finally have "of_int k = of_int (k * 2 ^ nat ?s) * quantum d (of_int k)"
    by simp
  moreover have "pow2 (int (precision d)) \<le> pow2 (emax d + 1)"
    using precision_le_emax by (rule pow2_mono)
  with small have "\<bar>of_int k :: real\<bar> < pow2 (emax d + 1)" by simp
  ultimately show ?thesis by (rule round_to_multiple)
qed

lemma round_to_numeral:
  "(numeral n :: int) < 2 ^ precision d \<Longrightarrow> round_to d (numeral n) = Fin (numeral n)"
  using round_to_of_int [of "numeral n" d] by simp


lemma round_to_one: "round_to d 1 = Fin 1"
  using round_to_of_int [of 1 d] by (cases d) simp_all

lemma example_roundings:
  shows "round_to float32 (1482911 / 1073741824) = Fin (1482911 / 1073741824)"
    and "round_to float32 (5931643 / 4294967296) = Fin (5931643 / 4294967296)"
    and "round_to float32 (2199025033921 / 1152921504606846976) = Fin (8388615 / 4398046511104)"
    and "round_to float32 (35184388679449 / 18446744073709551616) = Fin (2097153 / 1099511627776)"
    and "round_to float32 (8796098652773 / 4611686018427387904) = Fin (8388613 / 4398046511104)"
    and "round_to float32 (8388615 / 4398046511104) = Fin (8388615 / 4398046511104)"
    and "round_to float32 (2097153 / 1099511627776) = Fin (2097153 / 1099511627776)"
    and "round_to float32 (8388613 / 4398046511104) = Fin (8388613 / 4398046511104)"
    and "round_to float32 (2) = Fin (2)"
    and "round_to float32 (8388613 / 2199023255552) = Fin (8388613 / 2199023255552)"
    and "round_to float32 (8388615 / 2199023255552) = Fin (8388615 / 2199023255552)"
    and "round_to float32 (2097153 / 549755813888) = Fin (2097153 / 549755813888)"
    and "round_to float32 (- (8388611 / 4398046511104)) = Fin (- (8388611 / 4398046511104))"
    and "round_to float32 (1 / 4398046511104) = Fin (1 / 4398046511104)"
    and "round_to float32 (- (4194307 / 2199023255552)) = Fin (- (4194307 / 2199023255552))"
    and "round_to float32 (- (8388615 / 4398046511104)) = Fin (- (8388615 / 4398046511104))"
    and "round_to float32 (- (2097153 / 1099511627776)) = Fin (- (2097153 / 1099511627776))"
    and "round_to float32 (1 / 1000000000000000000) = Fin (9671407 / 9671406556917033397649408)"
    and "round_to float32 (1 / 2097152) = Fin (1 / 2097152)"
proof -
  show "round_to float32 (1482911 / 1073741824) = Fin (1482911 / 1073741824)"
    by (subst round_to_at [where e = "-10"]) (simp_all add: emin_def pow2_def rne_def)
  show "round_to float32 (5931643 / 4294967296) = Fin (5931643 / 4294967296)"
    by (subst round_to_at [where e = "-10"]) (simp_all add: emin_def pow2_def rne_def)
  show "round_to float32 (2199025033921 / 1152921504606846976) = Fin (8388615 / 4398046511104)"
    by (subst round_to_at [where e = "-19"]) (simp_all add: emin_def pow2_def rne_def)
  show "round_to float32 (35184388679449 / 18446744073709551616) = Fin (2097153 / 1099511627776)"
    by (subst round_to_at [where e = "-19"]) (simp_all add: emin_def pow2_def rne_def)
  show "round_to float32 (8796098652773 / 4611686018427387904) = Fin (8388613 / 4398046511104)"
    by (subst round_to_at [where e = "-19"]) (simp_all add: emin_def pow2_def rne_def)
  show "round_to float32 (8388615 / 4398046511104) = Fin (8388615 / 4398046511104)"
    by (subst round_to_at [where e = "-19"]) (simp_all add: emin_def pow2_def rne_def)
  show "round_to float32 (2097153 / 1099511627776) = Fin (2097153 / 1099511627776)"
    by (subst round_to_at [where e = "-19"]) (simp_all add: emin_def pow2_def rne_def)
  show "round_to float32 (8388613 / 4398046511104) = Fin (8388613 / 4398046511104)"
    by (subst round_to_at [where e = "-19"]) (simp_all add: emin_def pow2_def rne_def)
  show "round_to float32 (2) = Fin (2)"
    by (subst round_to_at [where e = "1"]) (simp_all add: emin_def pow2_def rne_def)
  show "round_to float32 (8388613 / 2199023255552) = Fin (8388613 / 2199023255552)"
    by (subst round_to_at [where e = "-18"]) (simp_all add: emin_def pow2_def rne_def)
  show "round_to float32 (8388615 / 2199023255552) = Fin (8388615 / 2199023255552)"
    by (subst round_to_at [where e = "-18"]) (simp_all add: emin_def pow2_def rne_def)
  show "round_to float32 (2097153 / 549755813888) = Fin (2097153 / 549755813888)"
    by (subst round_to_at [where e = "-18"]) (simp_all add: emin_def pow2_def rne_def)
  show "round_to float32 (- (8388611 / 4398046511104)) = Fin (- (8388611 / 4398046511104))"
    by (subst round_to_at [where e = "-19"]) (simp_all add: emin_def pow2_def rne_def)
  show "round_to float32 (1 / 4398046511104) = Fin (1 / 4398046511104)"
    by (subst round_to_at [where e = "-42"]) (simp_all add: emin_def pow2_def rne_def)
  show "round_to float32 (- (4194307 / 2199023255552)) = Fin (- (4194307 / 2199023255552))"
    by (subst round_to_at [where e = "-19"]) (simp_all add: emin_def pow2_def rne_def)
  show "round_to float32 (- (8388615 / 4398046511104)) = Fin (- (8388615 / 4398046511104))"
    by (subst round_to_at [where e = "-19"]) (simp_all add: emin_def pow2_def rne_def)
  show "round_to float32 (- (2097153 / 1099511627776)) = Fin (- (2097153 / 1099511627776))"
    by (subst round_to_at [where e = "-19"]) (simp_all add: emin_def pow2_def rne_def)
  show "round_to float32 (1 / 1000000000000000000) = Fin (9671407 / 9671406556917033397649408)"
    by (subst round_to_at [where e = "-60"]) (simp_all add: emin_def pow2_def rne_def)
  show "round_to float32 (1 / 2097152) = Fin (1 / 2097152)"
    by (subst round_to_at [where e = "-21"]) (simp_all add: emin_def pow2_def rne_def)
qed

lemma sqrt_example: "sqrt (1 / 4398046511104) = 1 / 2097152"
proof -
  have "sqrt (1 / 4398046511104 :: real) = sqrt ((1 / 2097152) * (1 / 2097152))"
    by simp
  also have "\<dots> = \<bar>1 / 2097152 :: real\<bar>"
    by (rule real_sqrt_abs2)
  finally show ?thesis by simp
qed

lemmas float_eval =
  expansion_float_def squared_norm_float_def f_dot_def f_reduce_sum_def fsub_def const_def
  threshold_eq round_to_zero

subsection \<open>The Euclidean threshold and the sign of the results\<close>

lemma overflow_example:
  "round_to float32 10000000400817550870767646659478483369984 = PInf"
  by (subst round_to_at [where e = "127"]) (simp_all add: emin_def pow2_def rne_def)


lemma sqrt_25: "sqrt 25 = 5"
proof -
  have "sqrt (25 :: real) = sqrt (5 * 5)" by simp
  also have "\<dots> = \<bar>5 :: real\<bar>" by (rule real_sqrt_abs2)
  finally show ?thesis by simp
qed

text \<open>
  Claim C2, as amended: for every float32 batch and every pair \<open>(i, j)\<close> the Euclidean
  kernel returns the float32 square root of the expansion
  \<open>(||e_i||\<^sup>2 - 2 dot(e_i, e_j)) + ||e_j||\<^sup>2\<close> as computed in float32 when the computed
  value is at least \<open>1e-18\<close> (the float32 nearest to it, \<open>9671407 / 2^83\<close>), exactly 0
  when it is below, and NaN when it is NaN.
\<close>

theorem EuclideanDistance_call_float_threshold:
  "dtype t = float32 \<Longrightarrow> i < length (entries t) \<Longrightarrow> j < length (entries t) \<Longrightarrow>
     (\<exists>r. EuclideanDistance_call_float t = Inr r \<and> dtype r = float32 \<and>
        length (entries r) = length (entries t) \<and>
        length (entries r ! i) = length (entries t) \<and>
        entries r ! i ! j =
          (let x = expansion_float float32 (entries t ! i) (entries t ! j)
           in if x = QNaN then QNaN
              else if fle (const float32 lit_1e_18) x then fsqrt float32 x
              else Fin 0)) \<and>
     const float32 lit_1e_18 = Fin (9671407 / 2 ^ 83)"
  by (simp add: EuclideanDistance_call_float_eq threshold_eq const_lit_numeral)

theorem EuclideanDistance_call_float_threshold_witness:
  "\<exists>r. EuclideanDistance_call_float
          \<lparr>dtype = float32, entries = [[Fin 0, Fin 0], [Fin 3, Fin 4]]\<rparr> = Inr r \<and>
       entries r ! 0 ! 1 = Fin 5 \<and> entries r ! 0 ! 0 = Fin 0"
proof -
  let ?t = "\<lparr>dtype = float32, entries = [[Fin 0, Fin 0], [Fin 3, Fin 4]]\<rparr>"
  have x01: "expansion_float float32 [Fin 0, Fin 0] [Fin 3, Fin 4] = Fin 25"
    by (simp add: float_eval round_to_numeral)
  have x00: "expansion_float float32 [Fin 0, Fin 0] [Fin 0, Fin 0] = Fin 0"
    by (simp add: float_eval round_to_numeral)
  have d: "dtype ?t = float32" and i: "0 < length (entries ?t)" and j: "1 < length (entries ?t)"
    by simp_all
  from EuclideanDistance_call_float_threshold [OF d i j]
    EuclideanDistance_call_float_threshold [OF d i i]
  show ?thesis
    by (auto simp: x01 x00 const_lit_numeral sqrt_25 round_to_numeral)
qed

text \<open>
  Claim C2 as stated fails: the two float32 embeddings \<open>[1482911 / 2^30]\<close> and
  \<open>[5931643 / 2^32]\<close> are within \<open>1e-18\<close> squared L2 distance of each other (it is
  \<open>2^-64\<close>, and so is the exact expansion), but the squares and the product are rounded,
  the computed expansion is \<open>2^-42\<close>, and the kernel returns the distance \<open>2^-21\<close>, not 0.
\<close>

theorem EuclideanDistance_call_float_near_counterexample:
  "l2_squared [1482911 / 2 ^ 30] [5931643 / 2 ^ 32] < lit_1e_18 \<and>
   expansion [1482911 / 2 ^ 30] [5931643 / 2 ^ 32] < lit_1e_18 \<and>
   round_to float32 (1482911 / 2 ^ 30) = Fin (1482911 / 2 ^ 30) \<and>
   round_to float32 (5931643 / 2 ^ 32) = Fin (5931643 / 2 ^ 32) \<and>
   EuclideanDistance_call_float
     \<lparr>dtype = float32, entries = [[Fin (1482911 / 2 ^ 30)], [Fin (5931643 / 2 ^ 32)]]\<rparr> =
     Inr \<lparr>dtype = float32, entries = [[Fin 0, Fin (1 / 2 ^ 21)], [Fin (1 / 2 ^ 21), Fin 0]]\<rparr>"
  by (simp add: l2_squared_def expansion_def dot_def EuclideanDistance_call_float_eq float_eval
      example_roundings sqrt_example)

text \<open>
  Three more batches: rows at distance 1 whose computed expansion cancels to 0; a squared
  norm that overflows; and a float64 batch, on which the kernel fails. Without the clamp
  of line 135 a negative computed expansion would give NaN instead of 0.
\<close>

lemma tie_roundings:
  shows "round_to float32 16777216 = Fin 16777216"
    and "round_to float32 16777217 = Fin 16777216"
    and "round_to float32 33554432 = Fin 33554432"
    and "round_to float32 (- 16777216) = Fin (- 16777216)"
proof -
  show "round_to float32 16777216 = Fin 16777216"
    by (subst round_to_at [where e = "24"]) (simp_all add: emin_def pow2_def rne_def)
  show "round_to float32 16777217 = Fin 16777216"
    by (subst round_to_at [where e = "24"]) (simp_all add: emin_def pow2_def rne_def)
  show "round_to float32 33554432 = Fin 33554432"
    by (subst round_to_at [where e = "25"]) (simp_all add: emin_def pow2_def rne_def)
  show "round_to float32 (- 16777216) = Fin (- 16777216)"
    by (subst round_to_at [where e = "24"]) (simp_all add: emin_def pow2_def rne_def)
qed

lemma EuclideanDistance_call_float_examples:
  shows "EuclideanDistance_call_float
      \<lparr>dtype = float32, entries = [[Fin 4096, Fin 1], [Fin 4096, Fin 0]]\<rparr> =
      Inr \<lparr>dtype = float32, entries = [[Fin 0, Fin 0], [Fin 0, Fin 0]]\<rparr>"
    and "EuclideanDistance_call_float
      \<lparr>dtype = float32, entries = [[Fin 100000002004087734272, Fin 0], [Fin 0, Fin 0]]\<rparr> =
      Inr \<lparr>dtype = float32, entries = [[QNaN, PInf], [PInf, Fin 0]]\<rparr>"
    and "EuclideanDistance_call_float \<lparr>dtype = float64, entries = [[Fin 1]]\<rparr> = Inl TypeError"
proof -
  show "EuclideanDistance_call_float
      \<lparr>dtype = float32, entries = [[Fin 4096, Fin 1], [Fin 4096, Fin 0]]\<rparr> =
      Inr \<lparr>dtype = float32, entries = [[Fin 0, Fin 0], [Fin 0, Fin 0]]\<rparr>"
    by (simp add: EuclideanDistance_call_float_eq float_eval round_to_numeral round_to_one
        tie_roundings example_roundings)
  show "EuclideanDistance_call_float
      \<lparr>dtype = float32, entries = [[Fin 100000002004087734272, Fin 0], [Fin 0, Fin 0]]\<rparr> =
      Inr \<lparr>dtype = float32, entries = [[QNaN, PInf], [PInf, Fin 0]]\<rparr>"
    by (simp add: EuclideanDistance_call_float_eq float_eval round_to_numeral
        overflow_example example_roundings)
  show "EuclideanDistance_call_float \<lparr>dtype = float64, entries = [[Fin 1]]\<rparr> = Inl TypeError"
    by (simp add: EuclideanDistance_call_float_other)
qed

lemma clamp_prevents_nan:
  shows "threshold (Fin (- 1)) = Fin 0"
    and "fmul float32 (fsqrt float32 (Fin (- 1))) (Fin 0) = QNaN"
  by (simp_all add: threshold_eq const_lit_numeral)




section \<open>Resolving a distance: the tables and the result\<close>

lemma dom_fold_alias:
  "dom (fold (\<lambda>alias m. m(alias \<mapsto> n)) as m) = dom m \<union> set as"
  by (induction as arbitrary: m) auto

lemma fold_alias_values:
  "fold (\<lambda>alias m. m(alias \<mapsto> n)) as m k = Some v \<Longrightarrow> v = n \<or> m k = Some v"
proof (induction as arbitrary: m)
  case Nil
  then show ?case by simp
next
  case (Cons a as)
  from Cons.prems have "fold (\<lambda>alias m. m(alias \<mapsto> n)) as (m(a \<mapsto> n)) k = Some v"
    by (simp only: fold.simps o_apply)
  then have "v = n \<or> (m(a \<mapsto> n)) k = Some v"
    by (rule Cons.IH)
  then show ?case
    by (auto split: if_splits)
qed

lemma known_names_Cons:
  "known_names (d # ds) = insert (name d) (set (aliases d)) \<union> known_names ds"
  by (simp add: known_names_def)

lemma dom_fold_register:
  "dom (fst (fold register_distance ds t)) = dom (fst t) \<union> known_names ds"
proof (induction ds arbitrary: t)
  case Nil
  show ?case by (simp add: known_names_def)
next
  case (Cons d ds)
  obtain mp nf where t: "t = (mp, nf)" by (cases t)
  have "dom (fst (register_distance d t)) = dom mp \<union> insert (name d) (set (aliases d))"
    by (simp add: t register_distance_def Let_def dom_fold_alias)
  then show ?case
    by (simp add: Cons.IH known_names_Cons t Un_assoc)
qed

lemma closed_register: "closed_tables t \<Longrightarrow> closed_tables (register_distance d t)"
proof -
  assume c: "closed_tables t"
  obtain mp nf where t: "t = (mp, nf)" by (cases t)
  show ?thesis
    unfolding closed_tables_def t register_distance_def Let_def
  proof (clarsimp simp: ran_def)
    fix k v
    assume "fold (\<lambda>alias m. m(alias \<mapsto> name d)) (aliases d) (mp(name d \<mapsto> name d)) k = Some v"
      and "v \<noteq> name d"
    then have "mp k = Some v"
      by (auto dest!: fold_alias_values split: if_splits)
    with c show "\<exists>y. nf v = Some y"
      by (auto simp: closed_tables_def t ran_def)
  qed
qed

lemma closed_fold_register:
  "closed_tables t \<Longrightarrow> closed_tables (fold register_distance ds t)"
  by (induction ds arbitrary: t) (simp_all add: closed_register)

lemma closed_build_tables: "closed_tables (build_tables ds)"
  unfolding build_tables_def
  by (rule closed_fold_register) (simp add: closed_tables_def)

lemma dom_build_tables: "dom (fst (build_tables ds)) = known_names ds"
  by (simp add: build_tables_def dom_fold_register)

lemma known_names_DISTANCES:
  "known_names DISTANCES =
     {''inner_product'', ''ip'', ''euclidean'', ''l2'', ''pythagorean'', ''squared_euclidean'',
      ''sql2'', ''sqeuclidean'', ''manhattan'', ''l1'', ''taxicab'', ''cosine''}"
  by (simp add: known_names_def DISTANCES_def InnerProductSimilarity_def EuclideanDistance_def
      SquaredEuclideanDistance_def ManhattanDistance_def CosineDistance_def insert_commute)

lemma registry_fields:
  "name InnerProductSimilarity = ''inner_product''" "aliases InnerProductSimilarity = [''ip'']"
  "name EuclideanDistance = ''euclidean''" "aliases EuclideanDistance = [''l2'', ''pythagorean'']"
  "name SquaredEuclideanDistance = ''squared_euclidean''"
  "aliases SquaredEuclideanDistance = [''sql2'', ''sqeuclidean'']"
  "name ManhattanDistance = ''manhattan''" "aliases ManhattanDistance = [''l1'', ''taxicab'']"
  "name CosineDistance = ''cosine''" "aliases CosineDistance = []"
  by (simp_all add: InnerProductSimilarity_def EuclideanDistance_def
      SquaredEuclideanDistance_def ManhattanDistance_def CosineDistance_def)

lemma distance_canonicalizer_Str:
  "distance_canonicalizer (Str s) =
     (let s' = strip (lower s) in
      if s' = ''euclidean'' \<or> s' = ''l2'' \<or> s' = ''pythagorean'' then Inr EuclideanDistance
      else if s' = ''inner_product'' \<or> s' = ''ip'' then Inr InnerProductSimilarity
      else if s' = ''squared_euclidean'' \<or> s' = ''sql2'' \<or> s' = ''sqeuclidean''
        then Inr SquaredEuclideanDistance
      else if s' = ''manhattan'' \<or> s' = ''l1'' \<or> s' = ''taxicab'' then Inr ManhattanDistance
      else if s' = ''cosine'' then Inr CosineDistance
      else Inl (ValueError ''Metric not supported by the framework''))"
  by (simp add: distance_canonicalizer_def build_tables_def DISTANCES_def register_distance_def
      Let_def registry_fields)

lemma distance_canonicalizer_Str_error:
  "(\<exists>err. distance_canonicalizer (Str s) = Inl err) \<longleftrightarrow>
     strip (lower s) \<notin> known_names DISTANCES"
proof -
  obtain mp nf where b: "build_tables DISTANCES = (mp, nf)"
    by (cases "build_tables DISTANCES")
  have d: "dom mp = known_names DISTANCES"
    using dom_build_tables [of DISTANCES] by (simp add: b)
  have c: "ran mp \<subseteq> dom nf"
    using closed_build_tables [of DISTANCES] by (simp add: b closed_tables_def)
  show ?thesis
  proof (cases "mp (strip (lower s))")
    case None
    then have "strip (lower s) \<notin> known_names DISTANCES"
      using d by auto
    with None show ?thesis
      by (simp add: distance_canonicalizer_def b Let_def)
  next
    case (Some canonical)
    then have "strip (lower s) \<in> known_names DISTANCES"
      using d by auto
    moreover from Some c obtain dist where "nf canonical = Some dist"
      by (auto simp: ran_def)
    ultimately show ?thesis
      using Some by (simp add: distance_canonicalizer_def b Let_def)
  qed
qed

lemma strip_lower_examples:
  "strip (lower ''l2'') = ''l2''"
  "strip (lower ''L2'') = ''l2''"
  "strip (lower ''euclidean'') = ''euclidean''"
  "strip (lower ''not_a_metric'') = ''not_a_metric''"
  "strip (lower ''  Pythagorean '') = ''pythagorean''"
  "strip (lower ''ip'') = ''ip''"
  by code_simp+

text \<open>
  Claim C6: the lookup lower-cases and trims a string and maps it through the table of
  names and aliases, so "l2", "L2" and "euclidean" all give the Euclidean kernel of the
  registry; every string that, lower-cased and trimmed, is the name or an alias of a
  kernel of the registry gives that kernel. The lookup fails, with a \<open>ValueError\<close>,
  exactly for the strings that, lower-cased and trimmed, are neither a name nor an alias
  (as "not_a_metric") and for the arguments that are neither a string nor a \<open>Distance\<close>.
\<close>

theorem distance_canonicalizer_resolves:
  "distance_canonicalizer (Str ''l2'') = Inr EuclideanDistance \<and>
   distance_canonicalizer (Str ''L2'') = Inr EuclideanDistance \<and>
   distance_canonicalizer (Str ''euclidean'') = Inr EuclideanDistance \<and>
   EuclideanDistance = DISTANCES ! 1 \<and>
   (\<forall>d \<in> set DISTANCES.
      strip (lower s) = name d \<or> strip (lower s) \<in> set (aliases d) \<longrightarrow>
        distance_canonicalizer (Str s) = Inr d) \<and>
   ((\<exists>err. distance_canonicalizer ud = Inl err) \<longleftrightarrow>
      (case ud of
         DistanceObj d \<Rightarrow> False
       | Str s' \<Rightarrow> strip (lower s') \<notin> known_names DISTANCES
       | Other \<Rightarrow> True)) \<and>
   ((\<exists>err. distance_canonicalizer ud = Inl err) \<longleftrightarrow>
      (\<exists>msg. distance_canonicalizer ud = Inl (ValueError msg))) \<and>
   distance_canonicalizer (Str ''not_a_metric'') =
     Inl (ValueError ''Metric not supported by the framework'') \<and>
   (\<exists>msg. distance_canonicalizer Other = Inl (ValueError msg))"
proof (intro conjI)
  show "distance_canonicalizer (Str ''l2'') = Inr EuclideanDistance"
    by (simp add: distance_canonicalizer_Str strip_lower_examples)
  show "distance_canonicalizer (Str ''L2'') = Inr EuclideanDistance"
    by (simp add: distance_canonicalizer_Str strip_lower_examples)
  show "distance_canonicalizer (Str ''euclidean'') = Inr EuclideanDistance"
    by (simp add: distance_canonicalizer_Str strip_lower_examples)
  show "EuclideanDistance = DISTANCES ! 1"
    by (simp add: DISTANCES_def)
  show "\<forall>d \<in> set DISTANCES.
      strip (lower s) = name d \<or> strip (lower s) \<in> set (aliases d) \<longrightarrow>
        distance_canonicalizer (Str s) = Inr d"
    by (auto simp: DISTANCES_def distance_canonicalizer_Str registry_fields)
  show "(\<exists>err. distance_canonicalizer ud = Inl err) \<longleftrightarrow>
      (case ud of
         DistanceObj d \<Rightarrow> False
       | Str s' \<Rightarrow> strip (lower s') \<notin> known_names DISTANCES
       | Other \<Rightarrow> True)"
  proof (cases ud)
    case (DistanceObj d)
    then show ?thesis by (simp add: distance_canonicalizer_def)
  next
    case (Str s')
    then show ?thesis by (simp add: distance_canonicalizer_Str_error)
  next
    case Other
    then show ?thesis by (simp add: distance_canonicalizer_def)
  qed
  show "(\<exists>err. distance_canonicalizer ud = Inl err) \<longleftrightarrow>
      (\<exists>msg. distance_canonicalizer ud = Inl (ValueError msg))"
  proof (cases ud)
    case (DistanceObj d)
    then show ?thesis by (simp add: distance_canonicalizer_def)
  next
    case (Str s')
    then show ?thesis by (simp add: distance_canonicalizer_Str Let_def)
  next
    case Other
    then show ?thesis by (simp add: distance_canonicalizer_def)
  qed
  show "distance_canonicalizer (Str ''not_a_metric'') =
     Inl (ValueError ''Metric not supported by the framework'')"
    by (simp add: distance_canonicalizer_Str strip_lower_examples)
  show "\<exists>msg. distance_canonicalizer Other = Inl (ValueError msg)"
    by (simp add: distance_canonicalizer_def)
qed

theorem distance_canonicalizer_resolves_witness:
  "distance_canonicalizer (Str ''  Pythagorean '') = Inr EuclideanDistance \<and>
   (\<exists>err. distance_canonicalizer (Str ''not_a_metric'') = Inl err)"
  using distance_canonicalizer_resolves [of "''  Pythagorean ''" "Str ''not_a_metric''"]
  by (simp add: DISTANCES_def registry_fields strip_lower_examples known_names_DISTANCES)

text \<open>
  Claim C10: a \<open>Distance\<close> object is returned unchanged, whether or not it is one of the
  registry; so resolving is idempotent: when resolving \<open>x\<close> succeeds with \<open>d\<close>,
  resolving \<open>d\<close> gives \<open>d\<close> again.
\<close>

theorem distance_canonicalizer_idempotent:
  "distance_canonicalizer (DistanceObj d) = Inr d \<and>
   (distance_canonicalizer x = Inr d \<longrightarrow>
      distance_canonicalizer (DistanceObj d) = distance_canonicalizer x) \<and>
   (\<exists>d'. d' \<notin> set DISTANCES \<and> distance_canonicalizer (DistanceObj d') = Inr d')"
proof (intro conjI impI)
  show "distance_canonicalizer (DistanceObj d) = Inr d"
    by (simp add: distance_canonicalizer_def)
  then show "distance_canonicalizer (DistanceObj d) = distance_canonicalizer x"
    if "distance_canonicalizer x = Inr d"
    using that by simp
  have "\<lparr>name = ''custom'', aliases = [], call = (\<lambda>e. e)\<rparr> \<notin> set DISTANCES"
    by (simp add: DISTANCES_def InnerProductSimilarity_def EuclideanDistance_def
        SquaredEuclideanDistance_def ManhattanDistance_def CosineDistance_def)
  moreover have "distance_canonicalizer (DistanceObj \<lparr>name = ''custom'', aliases = [], call = (\<lambda>e. e)\<rparr>)
      = Inr \<lparr>name = ''custom'', aliases = [], call = (\<lambda>e. e)\<rparr>"
    by (simp add: distance_canonicalizer_def)
  ultimately show "\<exists>d'. d' \<notin> set DISTANCES \<and> distance_canonicalizer (DistanceObj d') = Inr d'"
    by blast
qed

theorem distance_canonicalizer_idempotent_witness:
  "distance_canonicalizer (Str ''ip'') = Inr InnerProductSimilarity \<and>
   distance_canonicalizer (DistanceObj InnerProductSimilarity) =
     distance_canonicalizer (Str ''ip'')"
proof -
  have r: "distance_canonicalizer (Str ''ip'') = Inr InnerProductSimilarity"
    by (simp add: distance_canonicalizer_Str strip_lower_examples)
  show ?thesis
    using r distance_canonicalizer_idempotent [of InnerProductSimilarity "Str ''ip''"]
    by simp
qed

section \<open>Recall at k: the two averages\<close>

lemma list_ex_take_hit: "list_ex (\<lambda>b. b) (take k row) \<longleftrightarrow> hit k row"
proof -
  have "list_ex (\<lambda>b. b) (take k row) \<longleftrightarrow> (\<exists>j < length (take k row). take k row ! j)"
    by (simp add: list_ex_length)
  also have "\<dots> \<longleftrightarrow> (\<exists>j. j < k \<and> j < length row \<and> row ! j)"
    by (rule ex_cong1) auto
  finally show ?thesis by (simp add: hit_def)
qed

lemma length_match_indicator: "length (match_indicator k mm) = length mm"
  by (simp add: match_indicator_def)

lemma nth_match_indicator:
  "i < length mm \<Longrightarrow> match_indicator k mm ! i = (if hit k (mm ! i) then 1 else 0)"
  by (simp add: match_indicator_def list_ex_take_hit)

lemma sum_indicator_card:
  assumes "finite A"
  shows "(\<Sum>i \<in> A. if P i then 1 else 0 :: real) = real (card {i \<in> A. P i})"
proof -
  have "real (card {i \<in> A. P i}) = (\<Sum>i \<in> {i \<in> A. P i}. 1)"
    by simp
  also have "\<dots> = (\<Sum>i \<in> A. if P i then 1 else 0)"
    using assms by (rule sum.inter_filter)
  finally show ?thesis by simp
qed

lemma sum_list_match_indicator:
  "sum_list (match_indicator k mm) = real (card {i. i < length mm \<and> hit k (mm ! i)})"
proof -
  have "sum_list (match_indicator k mm) = (\<Sum>i \<in> {0..<length mm}. match_indicator k mm ! i)"
    by (simp add: sum_list_sum_nth length_match_indicator)
  also have "\<dots> = (\<Sum>i \<in> {0..<length mm}. if hit k (mm ! i) then 1 else 0)"
    by (rule sum.cong) (simp_all add: nth_match_indicator)
  also have "\<dots> = real (card {i \<in> {0..<length mm}. hit k (mm ! i)})"
    by (rule sum_indicator_card) simp
  finally show ?thesis by simp
qed

lemma compute_micro:
  "compute k ''micro'' ql mm = Inr (if mm = [] then NaN else Float (micro_average k mm))"
proof -
  have "match_indicator k mm = [] \<longleftrightarrow> mm = []"
    by (simp add: match_indicator_def)
  then show ?thesis
    by (simp add: compute_def Let_def reduce_mean_def micro_average_def
        sum_list_match_indicator length_match_indicator)
qed

lemma set_unique: "set (unique xs) = set xs"
  by (induction xs rule: unique.induct) auto

lemma distinct_unique: "distinct (unique xs)"
  by (induction xs rule: unique.induct) (auto simp: set_unique)

lemma set_where_equal: "set (where_equal ql l) = queries_of ql l"
  by (auto simp: where_equal_def queries_of_def)

lemma distinct_where_equal: "distinct (where_equal ql l)"
  by (simp add: where_equal_def)

lemma finite_queries_of: "finite (queries_of ql l)"
  by (simp add: queries_of_def)

lemma queries_of_nonempty: "l \<in> set ql \<Longrightarrow> queries_of ql l \<noteq> {}"
  by (auto simp: queries_of_def in_set_conv_nth)

lemma gather_where_equal:
  assumes "length ql \<le> length ind"
  shows "gather ind (where_equal ql l) = Inr (map (\<lambda>i. ind ! i) (where_equal ql l))"
proof -
  have "list_all (\<lambda>i. i < length ind) (where_equal ql l)"
    using assms by (auto simp: list_all_iff set_where_equal queries_of_def)
  then show ?thesis by (simp add: gather_def)
qed

lemma reduce_mean_class:
  assumes "length ql \<le> length mm" and "l \<in> set ql"
  shows "reduce_mean (map (\<lambda>i. match_indicator k mm ! i) (where_equal ql l))
    = Float (hit_rate k ql mm l)"
proof -
  have ne: "where_equal ql l \<noteq> []"
    using queries_of_nonempty [OF assms(2)] set_where_equal [of ql l] by auto
  have len: "length (where_equal ql l) = card (queries_of ql l)"
    using distinct_card [OF distinct_where_equal, of ql l] by (simp add: set_where_equal)
  have "sum_list (map (\<lambda>i. match_indicator k mm ! i) (where_equal ql l))
      = (\<Sum>i \<in> queries_of ql l. match_indicator k mm ! i)"
    by (simp add: sum_list_distinct_conv_sum_set distinct_where_equal set_where_equal)
  also have "\<dots> = (\<Sum>i \<in> queries_of ql l. if hit k (mm ! i) then 1 else 0)"
    using assms(1) by (intro sum.cong refl nth_match_indicator) (simp add: queries_of_def)
  also have "\<dots> = real (card {i \<in> queries_of ql l. hit k (mm ! i)})"
    by (rule sum_indicator_card) (rule finite_queries_of)
  finally show ?thesis
    using ne by (simp add: reduce_mean_def len hit_rate_def)
qed

lemma macro_loop_sum:
  assumes "length ql \<le> length mm" and "set ls \<subseteq> set ql"
  shows "macro_loop (match_indicator k mm) ql ls (Float a)
    = Inr (Float (a + sum_list (map (hit_rate k ql mm) ls)))"
  using assms(2)
proof (induction ls arbitrary: a)
  case Nil
  show ?case by simp
next
  case (Cons l ls)
  from Cons.prems have l: "l \<in> set ql" and ls: "set ls \<subseteq> set ql" by auto
  have g: "gather (match_indicator k mm) (where_equal ql l)
      = Inr (map (\<lambda>i. match_indicator k mm ! i) (where_equal ql l))"
    using assms(1) by (intro gather_where_equal) (simp add: length_match_indicator)
  show ?case
    by (simp add: g reduce_mean_class [OF assms(1) l] Cons.IH [OF ls] add.assoc)
qed

lemma compute_macro:
  assumes "length ql \<le> length mm"
  shows "compute k ''macro'' ql mm = Inr (if ql = [] then NaN else Float (macro_average k ql mm))"
proof -
  have s: "sum_list (map (hit_rate k ql mm) (unique ql)) = (\<Sum>l \<in> set ql. hit_rate k ql mm l)"
    by (simp add: sum_list_distinct_conv_sum_set distinct_unique set_unique)
  have c: "length (unique ql) = card (set ql)"
    using distinct_card [OF distinct_unique, of ql] by (simp add: set_unique)
  have e: "card (set ql) = 0 \<longleftrightarrow> ql = []"
    by simp
  show ?thesis
    using macro_loop_sum [OF assms, of "unique ql" k 0]
    by (simp add: compute_def Let_def set_unique s c e macro_average_def)
qed

lemma macro_loop_error:
  "macro_loop ind ql ls acc = Inl err \<Longrightarrow> err = InvalidArgumentError"
  by (induction ls arbitrary: acc) (auto simp: gather_def Let_def split: if_splits sum.splits)

lemma compute_ValueError:
  "(\<exists>msg. compute k average ql mm = Inl (ValueError msg)) \<longleftrightarrow>
     average \<noteq> ''micro'' \<and> average \<noteq> ''macro''"
proof (cases "average = ''micro'' \<or> average = ''macro''")
  case False
  then show ?thesis by (simp add: compute_def Let_def)
next
  case True
  then consider "average = ''micro''" | "average = ''macro''" by blast
  then show ?thesis
  proof cases
    case 1
    then show ?thesis by (simp add: compute_def Let_def)
  next
    case 2
    show ?thesis
    proof (cases "macro_loop (match_indicator k mm) ql (unique ql) (Float 0)")
      case (Inl err)
      then have "err = InvalidArgumentError" by (rule macro_loop_error)
      with Inl 2 show ?thesis by (simp add: compute_def Let_def)
    next
      case (Inr v)
      with 2 show ?thesis by (simp add: compute_def Let_def)
    qed
  qed
qed


lemma macro_average_two:
  assumes "a \<noteq> b" and "set ql = {a, b}"
    and "hit_rate k ql mm a = 1" and "hit_rate k ql mm b = 1 / 2"
  shows "macro_average k ql mm = 3 / 4"
  using assms by (simp add: macro_average_def)

lemma macro_average_cong:
  assumes "set ql' = set ql"
    and "\<forall>l \<in> set ql. hit_rate k ql' mm' l = hit_rate k ql mm l"
  shows "macro_average k ql' mm' = macro_average k ql mm"
  using assms by (simp add: macro_average_def)

text \<open>
  Claim C4: with \<open>average = "macro"\<close>, and one label per query, \<open>compute\<close> groups
  the queries by label, takes for each label the mean of the indicator over its queries
  and returns the mean of these per-label means, each label counting once whatever the
  number of its queries (NaN when there is no query). Two classes of 3 and 2 queries
  with the hit rates 1 and 0.5 give exactly 0.75; and two inputs with the same labels
  and the same hit rate for every label give the same result, whatever the class sizes.
\<close>

theorem compute_macro_average:
  "length query_labels = length match_mask \<Longrightarrow>
     compute k ''macro'' query_labels match_mask =
       Inr (if query_labels = [] then NaN
            else Float (macro_average k query_labels match_mask)) \<and>
     (\<forall>a b. a \<noteq> b \<longrightarrow> set query_labels = {a, b} \<longrightarrow>
        card (queries_of query_labels a) = 3 \<longrightarrow> card (queries_of query_labels b) = 2 \<longrightarrow>
        hit_rate k query_labels match_mask a = 1 \<longrightarrow>
        hit_rate k query_labels match_mask b = 1 / 2 \<longrightarrow>
        compute k ''macro'' query_labels match_mask = Inr (Float (3 / 4))) \<and>
     (\<forall>ql' mm'. length ql' = length mm' \<longrightarrow> set ql' = set query_labels \<longrightarrow>
        (\<forall>l \<in> set query_labels.
           hit_rate k ql' mm' l = hit_rate k query_labels match_mask l) \<longrightarrow>
        compute k ''macro'' ql' mm' = compute k ''macro'' query_labels match_mask)"
proof (intro conjI allI impI)
  assume len: "length query_labels = length match_mask"
  show m: "compute k ''macro'' query_labels match_mask =
       Inr (if query_labels = [] then NaN
            else Float (macro_average k query_labels match_mask))"
    using len by (simp add: compute_macro)
  {
    fix a b :: int
    assume "a \<noteq> b" and s: "set query_labels = {a, b}"
      and "hit_rate k query_labels match_mask a = 1"
      and "hit_rate k query_labels match_mask b = 1 / 2"
    then have "macro_average k query_labels match_mask = 3 / 4"
      by (rule macro_average_two)
    moreover from s have "query_labels \<noteq> []" by auto
    ultimately show "compute k ''macro'' query_labels match_mask = Inr (Float (3 / 4))"
      using m by simp
  }
  {
    fix ql' mm'
    assume len': "length ql' = length mm'" and s: "set ql' = set query_labels"
      and h: "\<forall>l \<in> set query_labels.
           hit_rate k ql' mm' l = hit_rate k query_labels match_mask l"
    have "macro_average k ql' mm' = macro_average k query_labels match_mask"
      using s h by (rule macro_average_cong)
    moreover from s have "ql' = [] \<longleftrightarrow> query_labels = []"
      by (metis set_empty)
    ultimately show "compute k ''macro'' ql' mm' = compute k ''macro'' query_labels match_mask"
      using m len' by (simp add: compute_macro)
  }
qed

lemma hit_rate_reduce_mean:
  assumes "length ql \<le> length mm" and "l \<in> set ql"
    and "reduce_mean (map (\<lambda>i. match_indicator k mm ! i) (where_equal ql l)) = Float r"
  shows "hit_rate k ql mm l = r"
  using reduce_mean_class [OF assms(1,2), of k] assms(3) by simp

lemma card_queries_of: "card (queries_of ql l) = length (where_equal ql l)"
  using distinct_card [OF distinct_where_equal, of ql l] by (simp add: set_where_equal)

theorem compute_macro_average_witness:
  "compute 1 ''macro'' [0, 0, 0, 1, 1] [[True], [True], [True], [True], [False]]
     = Inr (Float (3 / 4)) \<and>
   compute 1 ''micro'' [0, 0, 0, 1, 1] [[True], [True], [True], [True], [False]]
     = Inr (Float (4 / 5)) \<and>
   compute 1 ''macro'' [7, 5, 5] [[True], [False], [True]]
     = compute 1 ''macro'' [0, 0, 0, 1, 1] [[True], [True], [True], [True], [False]]"
proof -
  let ?ql = "[0, 0, 0, 1, 1] :: int list"
  let ?mm = "[[True], [True], [True], [True], [False]]"
  have len: "length ?ql = length ?mm" by simp
  have s: "set ?ql = {0, 1}" by auto
  have c0: "card (queries_of ?ql 0) = 3" and c1: "card (queries_of ?ql 1) = 2"
    unfolding card_queries_of by code_simp+
  have "reduce_mean (map (\<lambda>i. match_indicator 1 ?mm ! i) (where_equal ?ql 0)) = Float 1"
    by code_simp
  then have h0: "hit_rate 1 ?ql ?mm 0 = 1"
    by (intro hit_rate_reduce_mean) simp_all
  have "reduce_mean (map (\<lambda>i. match_indicator 1 ?mm ! i) (where_equal ?ql 1)) = Float (1 / 2)"
    by code_simp
  then have h1: "hit_rate 1 ?ql ?mm 1 = 1 / 2"
    by (intro hit_rate_reduce_mean) simp_all
  note t = compute_macro_average [OF len, of 1]
  have macro: "compute 1 ''macro'' ?ql ?mm = Inr (Float (3 / 4))"
    by (rule t [THEN conjunct2, THEN conjunct1, rule_format, OF _ s c0 c1 h0 h1]) simp
  have micro: "compute 1 ''micro'' ?ql ?mm = Inr (Float (4 / 5))"
    by code_simp
  have other: "compute 1 ''macro'' [7, 5, 5] [[True], [False], [True]] = Inr (Float (3 / 4))"
    by code_simp
  show ?thesis
    using macro micro other by simp
qed

text \<open>
  Claim C5: with \<open>average = "micro"\<close>, \<open>compute\<close> takes for each query the indicator
  that is 1 if and only if one of the first \<open>k\<close> entries of its row of the mask is true,
  and returns the mean of the indicators over all the queries (NaN when there is no
  query); 10 queries of which 7 have a hit give exactly 0.7.
\<close>

theorem compute_micro_average:
  "compute k ''micro'' query_labels match_mask =
     Inr (if match_mask = [] then NaN else Float (micro_average k match_mask)) \<and>
   length (match_indicator k match_mask) = length match_mask \<and>
   (\<forall>i < length match_mask.
      match_indicator k match_mask ! i = (if hit k (match_mask ! i) then 1 else 0)) \<and>
   (length match_mask = 10 \<longrightarrow>
      card {i. i < length match_mask \<and> hit k (match_mask ! i)} = 7 \<longrightarrow>
      compute k ''micro'' query_labels match_mask = Inr (Float (7 / 10)))"
proof (intro conjI allI impI)
  show m: "compute k ''micro'' query_labels match_mask =
     Inr (if match_mask = [] then NaN else Float (micro_average k match_mask))"
    by (rule compute_micro)
  show "length (match_indicator k match_mask) = length match_mask"
    by (rule length_match_indicator)
  show "match_indicator k match_mask ! i = (if hit k (match_mask ! i) then 1 else 0)"
    if "i < length match_mask" for i
    using that by (rule nth_match_indicator)
  show "compute k ''micro'' query_labels match_mask = Inr (Float (7 / 10))"
    if "length match_mask = 10"
      and "card {i. i < length match_mask \<and> hit k (match_mask ! i)} = 7"
  proof -
    from that(1) have "match_mask \<noteq> []" by auto
    moreover from that have "micro_average k match_mask = 7 / 10"
      by (simp add: micro_average_def)
    ultimately show ?thesis using m by simp
  qed
qed

theorem compute_micro_average_witness:
  "compute 1 ''micro'' []
     [[True], [True], [False], [True], [True], [False], [True], [True], [False], [True]]
     = Inr (Float (7 / 10)) \<and>
   match_indicator 1
     [[True], [True], [False], [True], [True], [False], [True], [True], [False], [True]] ! 2 = 0"
proof -
  let ?mm = "[[True], [True], [False], [True], [True], [False], [True], [True], [False], [True]]"
  have "sum_list (match_indicator 1 ?mm) = 7"
    by code_simp
  then have c: "card {i. i < length ?mm \<and> hit 1 (?mm ! i)} = 7"
    using sum_list_match_indicator [of 1 ?mm] by simp
  have h: "\<not> hit 1 (?mm ! 2)"
    by (simp add: hit_def)
  note t = compute_micro_average [of 1 "[]" ?mm]
  have m: "compute 1 ''micro'' [] ?mm = Inr (Float (7 / 10))"
    by (rule t [THEN conjunct2, THEN conjunct2, THEN conjunct2, rule_format, OF _ c]) simp
  have "match_indicator 1 ?mm ! 2 = (if hit 1 (?mm ! 2) then 1 else 0)"
    by (rule t [THEN conjunct2, THEN conjunct2, THEN conjunct1, rule_format]) simp
  with h m show ?thesis by simp
qed

text \<open>
  Claim C9: \<open>compute\<close> raises the \<open>ValueError\<close> of an unsupported average if and only if
  the configured average is neither "micro" nor "macro".
\<close>

theorem compute_unsupported_average:
  "((\<exists>msg. compute k average query_labels match_mask = Inl (ValueError msg)) \<longleftrightarrow>
      average \<noteq> ''micro'' \<and> average \<noteq> ''macro'') \<and>
   (compute k average query_labels match_mask =
      Inl (ValueError (average @ '' is not a supported average option'')) \<longleftrightarrow>
      average \<noteq> ''micro'' \<and> average \<noteq> ''macro'')"
proof
  show "(\<exists>msg. compute k average query_labels match_mask = Inl (ValueError msg)) \<longleftrightarrow>
      average \<noteq> ''micro'' \<and> average \<noteq> ''macro''"
    by (rule compute_ValueError)
  then show "compute k average query_labels match_mask =
      Inl (ValueError (average @ '' is not a supported average option'')) \<longleftrightarrow>
      average \<noteq> ''micro'' \<and> average \<noteq> ''macro''"
    by (auto simp: compute_def)
qed

theorem compute_unsupported_average_witness:
  "compute 1 ''weighted'' [0] [[True]]
     = Inl (ValueError ''weighted is not a supported average option'') \<and>
   (\<nexists>msg. compute 1 ''macro'' [0] [[True]] = Inl (ValueError msg))"
  using compute_unsupported_average [of 1 "''weighted''" "[0]" "[[True]]"]
    compute_unsupported_average [of 1 "''macro''" "[0]" "[[True]]"]
  by simp


section \<open>Removing a position from the store\<close>

lemma length_delete_at: "i < length xs \<Longrightarrow> length (delete_at i xs) = length xs - 1"
  by (simp add: delete_at_def)

lemma nth_delete_at:
  "i < length xs \<Longrightarrow> p < length xs - 1 \<Longrightarrow>
     delete_at i xs ! p = xs ! (if p < i then p else p + 1)"
  by (auto simp: delete_at_def nth_append min_def)

lemma delete_first_last:
  "2 \<le> length xs \<Longrightarrow>
     delete_at (length xs - 2) (delete_at 0 xs) = take (length xs - 2) (drop 1 xs)"
  by (simp add: delete_at_def)

lemma Indexer_remove_in_range:
  "0 \<le> i \<Longrightarrow> i < int (Indexer_size ix) \<Longrightarrow>
     Indexer_remove i ix =
       Inr (ix\<lparr>dataset_examples := delete_at (nat i) (dataset_examples ix),
               dataset_labels := delete_at (nat i) (dataset_labels ix),
               index := delete_at (nat i) (index ix)\<rparr>)"
  by (simp add: Indexer_remove_def)

text \<open>
  Claim C3: for a store of size \<open>N\<close> and a position \<open>0 \<le> i < N\<close>, \<open>Indexer.remove(i)\<close>
  yields the store (examples and labels) with position \<open>i\<close> deleted and every later
  position shifted down by one; so removing position 0 and then position \<open>N - 2\<close> from
  a store of \<open>N \<ge> 2\<close> items leaves the middle \<open>N - 2\<close> items, in their order.
\<close>

theorem Indexer_remove_shift:
  "consistent ix \<Longrightarrow> 0 \<le> i \<Longrightarrow> i < int (Indexer_size ix) \<Longrightarrow>
     (\<exists>ix'. Indexer_remove i ix = Inr ix' \<and> consistent ix' \<and>
        Indexer_size ix' = Indexer_size ix - 1 \<and>
        (\<forall>p < Indexer_size ix'.
           dataset_examples ix' ! p = dataset_examples ix ! (if p < nat i then p else p + 1) \<and>
           dataset_labels ix' ! p = dataset_labels ix ! (if p < nat i then p else p + 1))) \<and>
     (2 \<le> Indexer_size ix \<longrightarrow>
        (\<exists>ix1 ix2. Indexer_remove 0 ix = Inr ix1 \<and>
           Indexer_remove (int (Indexer_size ix) - 2) ix1 = Inr ix2 \<and>
           Indexer_size ix2 = Indexer_size ix - 2 \<and>
           dataset_examples ix2 = take (Indexer_size ix - 2) (drop 1 (dataset_examples ix)) \<and>
           dataset_labels ix2 = take (Indexer_size ix - 2) (drop 1 (dataset_labels ix)) \<and>
           (\<forall>p < Indexer_size ix - 2.
              dataset_examples ix2 ! p = dataset_examples ix ! (p + 1) \<and>
              dataset_labels ix2 ! p = dataset_labels ix ! (p + 1))))"
proof (intro conjI impI)
  assume c: "consistent ix" and i: "0 \<le> i" "i < int (Indexer_size ix)"
  let ?ix' = "ix\<lparr>dataset_examples := delete_at (nat i) (dataset_examples ix),
               dataset_labels := delete_at (nat i) (dataset_labels ix),
               index := delete_at (nat i) (index ix)\<rparr>"
  from i have n: "nat i < Indexer_size ix" by simp
  have "Indexer_remove i ix = Inr ?ix'"
    using i by (rule Indexer_remove_in_range)
  moreover have "consistent ?ix'"
    using c n by (simp add: consistent_def Indexer_size_def length_delete_at)
  moreover have s: "Indexer_size ?ix' = Indexer_size ix - 1"
    using n by (simp add: Indexer_size_def length_delete_at)
  moreover have "\<forall>p < Indexer_size ?ix'.
      dataset_examples ?ix' ! p = dataset_examples ix ! (if p < nat i then p else p + 1) \<and>
      dataset_labels ?ix' ! p = dataset_labels ix ! (if p < nat i then p else p + 1)"
    using c n unfolding s by (simp add: consistent_def Indexer_size_def nth_delete_at)
  ultimately show "\<exists>ix'. Indexer_remove i ix = Inr ix' \<and> consistent ix' \<and>
        Indexer_size ix' = Indexer_size ix - 1 \<and>
        (\<forall>p < Indexer_size ix'.
           dataset_examples ix' ! p = dataset_examples ix ! (if p < nat i then p else p + 1) \<and>
           dataset_labels ix' ! p = dataset_labels ix ! (if p < nat i then p else p + 1))"
    by blast
next
  assume c: "consistent ix" and two: "2 \<le> Indexer_size ix"
  let ?n = "Indexer_size ix"
  let ?ix1 = "ix\<lparr>dataset_examples := delete_at 0 (dataset_examples ix),
               dataset_labels := delete_at 0 (dataset_labels ix),
               index := delete_at 0 (index ix)\<rparr>"
  let ?ix2 = "?ix1\<lparr>dataset_examples := delete_at (?n - 2) (dataset_examples ?ix1),
               dataset_labels := delete_at (?n - 2) (dataset_labels ?ix1),
               index := delete_at (?n - 2) (index ?ix1)\<rparr>"
  have r1: "Indexer_remove 0 ix = Inr ?ix1"
    using two Indexer_remove_in_range [of 0 ix] by simp
  have s1: "Indexer_size ?ix1 = ?n - 1"
    by (simp add: Indexer_size_def delete_at_def)
  have pos: "int ?n - 2 = int (?n - 2)"
    using two by simp
  have "int (?n - 2) < int (Indexer_size ?ix1)"
    using two s1 by simp
  from Indexer_remove_in_range [OF _ this]
  have "Indexer_remove (int (?n - 2)) ?ix1 = Inr ?ix2"
    by simp
  then have r2: "Indexer_remove (int ?n - 2) ?ix1 = Inr ?ix2"
    by (simp only: pos)
  have le: "length (dataset_examples ix) = ?n" "length (dataset_labels ix) = ?n"
    using c by (simp_all add: consistent_def Indexer_size_def)
  have e: "dataset_examples ?ix2 = take (?n - 2) (drop 1 (dataset_examples ix))"
    using two le delete_first_last [of "dataset_examples ix"] by simp
  have l: "dataset_labels ?ix2 = take (?n - 2) (drop 1 (dataset_labels ix))"
    using two le delete_first_last [of "dataset_labels ix"] by simp
  have s2: "Indexer_size ?ix2 = ?n - 2"
    using two by (simp add: Indexer_size_def delete_first_last)
  have nth: "\<forall>p < ?n - 2.
      dataset_examples ?ix2 ! p = dataset_examples ix ! (p + 1) \<and>
      dataset_labels ?ix2 ! p = dataset_labels ix ! (p + 1)"
    unfolding e l using le by simp
  show "\<exists>ix1 ix2. Indexer_remove 0 ix = Inr ix1 \<and>
           Indexer_remove (int (Indexer_size ix) - 2) ix1 = Inr ix2 \<and>
           Indexer_size ix2 = Indexer_size ix - 2 \<and>
           dataset_examples ix2 = take (Indexer_size ix - 2) (drop 1 (dataset_examples ix)) \<and>
           dataset_labels ix2 = take (Indexer_size ix - 2) (drop 1 (dataset_labels ix)) \<and>
           (\<forall>p < Indexer_size ix - 2.
              dataset_examples ix2 ! p = dataset_examples ix ! (p + 1) \<and>
              dataset_labels ix2 ! p = dataset_labels ix ! (p + 1))"
    using r1 r2 s2 e l nth by blast
qed


theorem Indexer_remove_shift_witness:
  "Indexer_remove 1
     \<lparr>dataset_examples = [''a'', ''b'', ''c'', ''d''], dataset_labels = [0, 1, 0, 1 :: int],
      index = [10, 11, 12, 13 :: nat]\<rparr>
     = Inr \<lparr>dataset_examples = [''a'', ''c'', ''d''], dataset_labels = [0, 0, 1],
            index = [10, 12, 13]\<rparr> \<and>
   (\<exists>ix1 ix2.
      Indexer_remove 0
        \<lparr>dataset_examples = [''a'', ''b'', ''c'', ''d''], dataset_labels = [0, 1, 0, 1 :: int],
         index = [10, 11, 12, 13 :: nat]\<rparr> = Inr ix1 \<and>
      Indexer_remove 2 ix1 = Inr ix2 \<and>
      dataset_examples ix2 = [''b'', ''c''] \<and> dataset_labels ix2 = [1, 0])"
proof -
  let ?ix = "\<lparr>dataset_examples = [''a'', ''b'', ''c'', ''d''],
      dataset_labels = [0, 1, 0, 1 :: int], index = [10, 11, 12, 13 :: nat]\<rparr>"
  have c: "consistent ?ix"
    by (simp add: consistent_def)
  have n: "Indexer_size ?ix = 4"
    by (simp add: Indexer_size_def)
  have i: "(0::int) \<le> 1" "1 < int (Indexer_size ?ix)"
    by (simp_all add: n)
  note t = Indexer_remove_shift [OF c i]
  have two: "2 \<le> Indexer_size ?ix"
    by (simp add: n)
  from t [THEN conjunct2, rule_format, OF two]
  obtain ix1 ix2 where r: "Indexer_remove 0 ?ix = Inr ix1"
    "Indexer_remove (int (Indexer_size ?ix) - 2) ix1 = Inr ix2"
    "dataset_examples ix2 = take (Indexer_size ?ix - 2) (drop 1 (dataset_examples ?ix))"
    "dataset_labels ix2 = take (Indexer_size ?ix - 2) (drop 1 (dataset_labels ?ix))"
    by blast
  have "Indexer_remove 2 ix1 = Inr ix2"
    using r(2) by (simp add: n)
  moreover have "dataset_examples ix2 = [''b'', ''c'']" "dataset_labels ix2 = [1, 0]"
    using r(3,4) by (simp_all add: n)
  moreover have "Indexer_remove 1 ?ix
     = Inr \<lparr>dataset_examples = [''a'', ''c'', ''d''], dataset_labels = [0, 0, 1],
            index = [10, 12, 13]\<rparr>"
    by (simp add: Indexer_remove_def Indexer_size_def delete_at_def)
  ultimately show ?thesis
    using r(1) by blast
qed

end
